theory Spec2Isabelle
  imports Main "HOL-Library.Sublist" "HOL-Library.Word"
begin

unbundle bit_operations_syntax

section \<open>Python strings\<close>

text \<open>
  A Python \<open>str\<close> and a Python \<open>bytes\<close> are both modelled as \<^typ>\<open>string\<close>: a list of
  characters with codes 0 to 255. Text files are therefore read as Latin-1 text; the
  whitespace that \<open>str.strip()\<close> removes is Python's \<open>str.isspace\<close> on that range.
\<close>

definition TAB :: char where "TAB = CHR 0x09"
definition LF :: char where "LF = CHR 0x0A"
definition CR :: char where "CR = CHR 0x0D"
definition BACKSLASH :: char where "BACKSLASH = CHR 0x5C"

definition isspace :: "char \<Rightarrow> bool" where
  "isspace c = ((of_char c :: nat) \<in> set [9, 10, 11, 12, 13, 28, 29, 30, 31, 32, 133, 160])"

definition lstrip :: "string \<Rightarrow> string" where
  "lstrip s = dropWhile isspace s"

definition rstrip :: "string \<Rightarrow> string" where
  "rstrip s = rev (dropWhile isspace (rev s))"

definition strip :: "string \<Rightarrow> string" where
  "strip s = rstrip (lstrip s)"

text \<open>\<open>s.split(c)\<close> for a one-character separator: one more piece than separators.\<close>

fun split :: "char \<Rightarrow> string \<Rightarrow> string list" where
  "split c [] = [[]]"
| "split c (x # xs) =
     (if x = c then [] # split c xs
      else (case split c xs of [] \<Rightarrow> [[x]] | p # ps \<Rightarrow> (x # p) # ps))"

definition startswith :: "string \<Rightarrow> string \<Rightarrow> bool" where
  "startswith s p = prefix p s"

definition endswith :: "string \<Rightarrow> string \<Rightarrow> bool" where
  "endswith s p = suffix p s"

text \<open>\<open>sep.join(xs)\<close>.\<close>

fun join :: "string \<Rightarrow> string list \<Rightarrow> string" where
  "join sep [] = []"
| "join sep [x] = x"
| "join sep (x # y # ys) = x @ sep @ join sep (y # ys)"

text \<open>\<open>str(n)\<close> for a non-negative integer: its decimal digits.\<close>

definition digit :: "nat \<Rightarrow> char" where
  "digit d = ''0123456789'' ! d"

fun str_nat :: "nat \<Rightarrow> string" where
  "str_nat n = (if n < 10 then [digit n] else str_nat (n div 10) @ [digit (n mod 10)])"

declare str_nat.simps [simp del]

section \<open>Exceptions\<close>

text \<open>
  The exceptions that can leave the functions of \<open>download_c_libaries.py\<close>. The script
  itself raises only \<open>RuntimeError\<close> and (inside \<open>load_platform_config\<close>) \<open>ValueError\<close>;
  the others come from the operating system, from \<open>urllib\<close> and from the archive modules.
  An operating-system error carries the \<open>str()\<close> of the path it is about.
\<close>

datatype exn =
    RuntimeError string
  | ValueError string
  | FileNotFoundError string
  | FileExistsError string
  | NotADirectoryError string
  | IsADirectoryError string
  | URLError string
  | BadZipFile string
  | ReadError string

text \<open>
  \<open>str(e)\<close>, as an f-string formats a caught exception. The file name of an
  operating-system error is shown through \<open>repr\<close>, here for names that need no escaping.
\<close>

definition repr_str :: "string \<Rightarrow> string" where
  "repr_str s = [CHR 0x27] @ s @ [CHR 0x27]"

fun exn_str :: "exn \<Rightarrow> string" where
  "exn_str (RuntimeError m) = m"
| "exn_str (ValueError m) = m"
| "exn_str (FileNotFoundError p) = ''[Errno 2] No such file or directory: '' @ repr_str p"
| "exn_str (FileExistsError p) = ''[Errno 17] File exists: '' @ repr_str p"
| "exn_str (NotADirectoryError p) = ''[Errno 20] Not a directory: '' @ repr_str p"
| "exn_str (IsADirectoryError p) = ''[Errno 21] Is a directory: '' @ repr_str p"
| "exn_str (URLError m) = m"
| "exn_str (BadZipFile m) = m"
| "exn_str (ReadError m) = m"

section \<open>The version table\<close>

text \<open>
  \<open>Dict[str, Dict[str, Tuple[str, str]]]\<close>: version, then platform triplet, to
  (archive extension, hash).
\<close>

type_synonym platforms = "string \<rightharpoonup> string \<times> string"
type_synonym config = "string \<rightharpoonup> platforms"

text \<open>
  Iterating a file opened in text mode: universal newlines turn \<open>\r\n\<close> and a lone \<open>\r\<close>
  into \<open>\n\<close>, and every line keeps its terminator.
\<close>

fun universal_newlines :: "string \<Rightarrow> string" where
  "universal_newlines [] = []"
| "universal_newlines [c] = (if c = CR then [LF] else [c])"
| "universal_newlines (c # d # ds) =
     (if c = CR \<and> d = LF then LF # universal_newlines ds
      else if c = CR then LF # universal_newlines (d # ds)
      else c # universal_newlines (d # ds))"

fun readlines :: "string \<Rightarrow> string list" where
  "readlines [] = []"
| "readlines (c # cs) =
     (if c = LF then [LF] # readlines cs
      else (case readlines cs of [] \<Rightarrow> [[c]] | l # ls \<Rightarrow> (c # l) # ls))"

definition text_lines :: "string \<Rightarrow> string list" where
  "text_lines content = readlines (universal_newlines content)"

text \<open>\<open>enumerate(f, 1)\<close>.\<close>

definition enumerate1 :: "'a list \<Rightarrow> (nat \<times> 'a) list" where
  "enumerate1 xs = zip [1 ..< Suc (length xs)] xs"

text \<open>
  The body of the \<open>try\<close> in \<open>load_platform_config\<close>, on a stripped line that is neither
  blank nor a comment: the four fields of the row, or the \<open>ValueError\<close> raised.
\<close>

definition parse_line :: "string \<Rightarrow> exn + (string \<times> string \<times> string \<times> string)" where
  "parse_line line =
     (let parts = split TAB line in
      if length parts \<noteq> 2
      then Inl (ValueError (''Expected format: version'' @ [BACKSLASH] @ ''tplatform, ext, hash''))
      else
        let version = strip (parts ! 0);
            platform_info = strip (parts ! 1);
            platform_parts = map strip (split (CHR '','') platform_info)
        in if length platform_parts \<noteq> 3
           then Inl (ValueError ''Expected format: platform, ext, hash'')
           else Inr (version, platform_parts ! 0, platform_parts ! 1, platform_parts ! 2))"

text \<open>
  \<open>if version not in config: config[version] = {}\<close> followed by
  \<open>config[version][platform_triplet] = (archive_ext, hash_value)\<close>.
\<close>

definition set_entry :: "config \<Rightarrow> string \<Rightarrow> string \<Rightarrow> string \<times> string \<Rightarrow> config" where
  "set_entry config version platform_triplet v =
     (let inner = (case config version of None \<Rightarrow> Map.empty | Some m \<Rightarrow> m)
      in config(version \<mapsto> inner(platform_triplet \<mapsto> v)))"

text \<open>The \<open>for line_num, line in enumerate(f, 1)\<close> loop, with the dict built so far.\<close>

fun load_loop :: "(nat \<times> string) list \<Rightarrow> config \<Rightarrow> exn + config" where
  "load_loop [] config = Inr config"
| "load_loop ((line_num, raw) # rest) config =
     (let line = strip raw in
      if line = [] \<or> startswith line ''#'' then load_loop rest config
      else
        (case parse_line line of
           Inl e \<Rightarrow>
             Inl (RuntimeError
               (''Error parsing VERSIONS.txt line '' @ str_nat line_num @ '': '' @ exn_str e))
         | Inr (version, platform_triplet, archive_ext, hash_value) \<Rightarrow>
             load_loop rest (set_entry config version platform_triplet (archive_ext, hash_value))))"

definition load_text :: "string \<Rightarrow> exn + config" where
  "load_text content = load_loop (enumerate1 (text_lines content)) Map.empty"

section \<open>SHA-256\<close>

text \<open>
  \<open>hashlib.sha256\<close> is not code of this repository; it is modelled after FIPS 180-4.
  \<open>sha256\<close> is the digest of a whole message in one pass. The hash object keeps the
  chaining value, the bytes of the last incomplete block and the number of bytes fed so
  far, as the C implementation behind \<open>hashlib\<close> does.
\<close>

type_synonym word32 = "32 word"
type_synonym hstate = "word32 \<times> word32 \<times> word32 \<times> word32 \<times> word32 \<times> word32 \<times> word32 \<times> word32"

text \<open>The sixty-four round constants, four to a row.\<close>

definition K256 :: "word32 list" where
  "K256 = concat
    [[0x428a2f98, 0x71374491, 0xb5c0fbcf, 0xe9b5dba5],
     [0x3956c25b, 0x59f111f1, 0x923f82a4, 0xab1c5ed5],
     [0xd807aa98, 0x12835b01, 0x243185be, 0x550c7dc3],
     [0x72be5d74, 0x80deb1fe, 0x9bdc06a7, 0xc19bf174],
     [0xe49b69c1, 0xefbe4786, 0x0fc19dc6, 0x240ca1cc],
     [0x2de92c6f, 0x4a7484aa, 0x5cb0a9dc, 0x76f988da],
     [0x983e5152, 0xa831c66d, 0xb00327c8, 0xbf597fc7],
     [0xc6e00bf3, 0xd5a79147, 0x06ca6351, 0x14292967],
     [0x27b70a85, 0x2e1b2138, 0x4d2c6dfc, 0x53380d13],
     [0x650a7354, 0x766a0abb, 0x81c2c92e, 0x92722c85],
     [0xa2bfe8a1, 0xa81a664b, 0xc24b8b70, 0xc76c51a3],
     [0xd192e819, 0xd6990624, 0xf40e3585, 0x106aa070],
     [0x19a4c116, 0x1e376c08, 0x2748774c, 0x34b0bcb5],
     [0x391c0cb3, 0x4ed8aa4a, 0x5b9cca4f, 0x682e6ff3],
     [0x748f82ee, 0x78a5636f, 0x84c87814, 0x8cc70208],
     [0x90befffa, 0xa4506ceb, 0xbef9a3f7, 0xc67178f2]]"

definition H256 :: hstate where
  "H256 = (0x6a09e667, 0xbb67ae85, 0x3c6ef372, 0xa54ff53a,
           0x510e527f, 0x9b05688c, 0x1f83d9ab, 0x5be0cd19)"

definition Ch :: "word32 \<Rightarrow> word32 \<Rightarrow> word32 \<Rightarrow> word32" where
  "Ch x y z = (x AND y) XOR (NOT x AND z)"

definition Maj :: "word32 \<Rightarrow> word32 \<Rightarrow> word32 \<Rightarrow> word32" where
  "Maj x y z = (x AND y) XOR (x AND z) XOR (y AND z)"

definition Sigma0 :: "word32 \<Rightarrow> word32" where
  "Sigma0 x = word_rotr 2 x XOR word_rotr 13 x XOR word_rotr 22 x"

definition Sigma1 :: "word32 \<Rightarrow> word32" where
  "Sigma1 x = word_rotr 6 x XOR word_rotr 11 x XOR word_rotr 25 x"

definition sigma0 :: "word32 \<Rightarrow> word32" where
  "sigma0 x = word_rotr 7 x XOR word_rotr 18 x XOR drop_bit 3 x"

definition sigma1 :: "word32 \<Rightarrow> word32" where
  "sigma1 x = word_rotr 17 x XOR word_rotr 19 x XOR drop_bit 10 x"

text \<open>Four bytes, most significant first, as one word.\<close>

definition be32 :: "string \<Rightarrow> word32" where
  "be32 bs = foldl (\<lambda>acc c. push_bit 8 acc OR of_char c) 0 bs"

fun words_of :: "nat \<Rightarrow> string \<Rightarrow> word32 list" where
  "words_of 0 bs = []"
| "words_of (Suc n) bs = be32 (take 4 bs) # words_of n (drop 4 bs)"

text \<open>The message schedule: \<open>n\<close> more words after those of the block.\<close>

fun schedule :: "nat \<Rightarrow> word32 list \<Rightarrow> word32 list" where
  "schedule 0 w = w"
| "schedule (Suc n) w =
     (let t = length w in
      schedule n (w @ [sigma1 (w ! (t - 2)) + w ! (t - 7) + sigma0 (w ! (t - 15)) + w ! (t - 16)]))"

definition round256 :: "word32 \<times> word32 \<Rightarrow> hstate \<Rightarrow> hstate" where
  "round256 kw v =
     (case v of (a, b, c, d, e, f, g, h) \<Rightarrow>
        let t1 = h + Sigma1 e + Ch e f g + fst kw + snd kw;
            t2 = Sigma0 a + Maj a b c
        in (t1 + t2, a, b, c, d + t1, e, f, g))"

definition add_state :: "hstate \<Rightarrow> hstate \<Rightarrow> hstate" where
  "add_state x y =
     (case x of (a, b, c, d, e, f, g, h) \<Rightarrow>
      case y of (a', b', c', d', e', f', g', h') \<Rightarrow>
        (a + a', b + b', c + c', d + d', e + e', f + f', g + g', h + h'))"

text \<open>The compression function on one 64-byte block.\<close>

definition compress :: "hstate \<Rightarrow> string \<Rightarrow> hstate" where
  "compress hs block =
     add_state hs (fold round256 (zip K256 (schedule 48 (words_of 16 block))) hs)"

text \<open>Padding of a message of \<open>n\<close> bytes: a one bit, zeros, the bit length in 64 bits.\<close>

definition be64 :: "64 word \<Rightarrow> string" where
  "be64 w = map (\<lambda>s. char_of (unat (drop_bit s w AND 255))) [56, 48, 40, 32, 24, 16, 8, 0]"

definition padding :: "nat \<Rightarrow> string" where
  "padding n = CHR 0x80 # replicate ((119 - n mod 64) mod 64) (CHR 0x00) @ be64 (of_nat (8 * n))"

fun blocks :: "nat \<Rightarrow> string \<Rightarrow> string list" where
  "blocks 0 bs = []"
| "blocks (Suc n) bs = take 64 bs # blocks n (drop 64 bs)"

definition sha256 :: "string \<Rightarrow> hstate" where
  "sha256 m =
     (let padded = m @ padding (length m)
      in foldl compress H256 (blocks (length padded div 64) padded))"

text \<open>The digest as 64 lower-case hexadecimal digits.\<close>

definition hexdigit :: "nat \<Rightarrow> char" where
  "hexdigit d = ''0123456789abcdef'' ! d"

definition hex32 :: "word32 \<Rightarrow> string" where
  "hex32 x = map (\<lambda>s. hexdigit (unat (drop_bit s x AND 15))) [28, 24, 20, 16, 12, 8, 4, 0]"

definition hex_of_state :: "hstate \<Rightarrow> string" where
  "hex_of_state v =
     (case v of (a, b, c, d, e, f, g, h) \<Rightarrow>
        hex32 a @ hex32 b @ hex32 c @ hex32 d @ hex32 e @ hex32 f @ hex32 g @ hex32 h)"

subsection \<open>The hash object\<close>

record sha256_ctx =
  chain :: hstate
  pending :: string
  fed :: nat

definition sha256_new :: sha256_ctx where
  "sha256_new = \<lparr>chain = H256, pending = [], fed = 0\<rparr>"

text \<open>Compress every complete block at the front; what is left is shorter than a block.\<close>

function absorb :: "hstate \<Rightarrow> string \<Rightarrow> hstate \<times> string" where
  "absorb hs bs =
     (if length bs < 64 then (hs, bs) else absorb (compress hs (take 64 bs)) (drop 64 bs))"
  by pat_completeness auto
termination
  by (relation "measure (\<lambda>(hs, bs). length bs)") auto

declare absorb.simps [simp del]

definition sha256_update :: "sha256_ctx \<Rightarrow> string \<Rightarrow> sha256_ctx" where
  "sha256_update ctx data =
     (case absorb (chain ctx) (pending ctx @ data) of
        (hs, rest) \<Rightarrow> \<lparr>chain = hs, pending = rest, fed = fed ctx + length data\<rparr>)"

definition sha256_hexdigest :: "sha256_ctx \<Rightarrow> string" where
  "sha256_hexdigest ctx =
     hex_of_state (fst (absorb (chain ctx) (pending ctx @ padding (fed ctx))))"

section \<open>Paths and the file system\<close>

text \<open>
  A \<open>pathlib.Path\<close> on a POSIX system: whether it starts at the root, and its
  components. Symbolic links, \<open>..\<close> components, permissions and limits on name lengths
  are not modelled.
\<close>

datatype path = Path (anchored: bool) (parts: "string list")

text \<open>
  \<open>Path(s)\<close>: empty and \<open>.\<close> components are dropped. (A root of exactly two slashes,
  which pathlib keeps apart, is read as the ordinary root.)
\<close>

definition parse_path :: "string \<Rightarrow> path" where
  "parse_path s =
     Path (startswith s ''/'') (filter (\<lambda>c. c \<noteq> [] \<and> c \<noteq> ''.'') (split (CHR ''/'') s))"

text \<open>\<open>p / s\<close> for a string \<open>s\<close>: an absolute right operand replaces the left one.\<close>

definition path_join :: "path \<Rightarrow> string \<Rightarrow> path" where
  "path_join p s =
     (let q = parse_path s in
      if anchored q then q else Path (anchored p) (parts p @ parts q))"

definition path_str :: "path \<Rightarrow> string" where
  "path_str p =
     (if anchored p then ''/'' @ join ''/'' (parts p)
      else if parts p = [] then ''.'' else join ''/'' (parts p))"

definition path_name :: "path \<Rightarrow> string" where
  "path_name p = (if parts p = [] then [] else last (parts p))"

definition path_parent :: "path \<Rightarrow> path" where
  "path_parent p = Path (anchored p) (butlast (parts p))"

text \<open>\<open>s.rfind(c)\<close>, with \<open>None\<close> for Python's \<open>-1\<close>.\<close>

definition rfind :: "char \<Rightarrow> string \<Rightarrow> nat option" where
  "rfind c s =
     (if c \<in> set s then Some (length s - 1 - length (takeWhile (\<lambda>x. x \<noteq> c) (rev s))) else None)"

text \<open>
  \<open>Path.suffix\<close>: the name from its last dot on, when that dot is neither the first nor
  the last character of the name. (From Python 3.14 on a trailing dot is a suffix of its
  own; no comparison in this program tells the two apart.)
\<close>

definition path_suffix :: "path \<Rightarrow> string" where
  "path_suffix p =
     (let name = path_name p in
      case rfind (CHR ''.'') name of
        None \<Rightarrow> []
      | Some i \<Rightarrow> if 0 < i \<and> i < length name - 1 then drop i name else [])"

datatype node = File string | Dir

type_synonym filesystem = "string list \<rightharpoonup> node"

text \<open>
  The state the program acts on: the file system (keyed by the components of the absolute
  path; the root is always a directory), the working directory, the lines printed to
  standard output and the URLs requested from the network, oldest first.
\<close>

record world =
  fs :: filesystem
  cwd :: "string list"
  stdout :: "string list"
  requests :: "string list"

definition resolve :: "world \<Rightarrow> path \<Rightarrow> string list" where
  "resolve w p = (if anchored p then parts p else cwd w @ parts p)"

definition node_at :: "filesystem \<Rightarrow> string list \<Rightarrow> node option" where
  "node_at f k = (if k = [] then Some Dir else f k)"

definition print :: "world \<Rightarrow> string \<Rightarrow> world" where
  "print w line = w\<lparr>stdout := stdout w @ [line]\<rparr>"

text \<open>
  Walking to the entry \<open>k\<close>: the first proper ancestor that is missing gives ENOENT, one
  that is a regular file gives ENOTDIR. \<open>name\<close> is the path as the caller wrote it.
\<close>

definition ancestors :: "string list \<Rightarrow> string list list" where
  "ancestors k = map (\<lambda>n. take n k) [1 ..< length k]"

definition walk :: "filesystem \<Rightarrow> string list \<Rightarrow> string \<Rightarrow> exn option" where
  "walk f k name =
     (case find (\<lambda>q. f q \<noteq> Some Dir) (ancestors k) of
        None \<Rightarrow> None
      | Some q \<Rightarrow>
          (if f q = None then Some (FileNotFoundError name) else Some (NotADirectoryError name)))"

text \<open>\<open>os.mkdir\<close>.\<close>

definition os_mkdir :: "filesystem \<Rightarrow> string list \<Rightarrow> string \<Rightarrow> exn + filesystem" where
  "os_mkdir f k name =
     (if k = [] then Inl (FileExistsError name)
      else case walk f k name of
        Some e \<Rightarrow> Inl e
      | None \<Rightarrow> if f k \<noteq> None then Inl (FileExistsError name) else Inr (f(k \<mapsto> Dir)))"

text \<open>\<open>open(name, 'wb')\<close> followed by writing \<open>data\<close>.\<close>

definition write_file :: "filesystem \<Rightarrow> string list \<Rightarrow> string \<Rightarrow> string \<Rightarrow> exn + filesystem" where
  "write_file f k name data =
     (if k = [] then Inl (IsADirectoryError name)
      else case walk f k name of
        Some e \<Rightarrow> Inl e
      | None \<Rightarrow> if f k = Some Dir then Inl (IsADirectoryError name) else Inr (f(k \<mapsto> File data)))"

text \<open>\<open>open(name, 'rb').read()\<close>, and the same for a text file.\<close>

definition read_file :: "filesystem \<Rightarrow> string list \<Rightarrow> string \<Rightarrow> exn + string" where
  "read_file f k name =
     (case walk f k name of
        Some e \<Rightarrow> Inl e
      | None \<Rightarrow>
          (case node_at f k of
             None \<Rightarrow> Inl (FileNotFoundError name)
           | Some Dir \<Rightarrow> Inl (IsADirectoryError name)
           | Some (File data) \<Rightarrow> Inr data))"

text \<open>\<open>shutil.rmtree\<close>: the entry and everything below it.\<close>

definition rmtree :: "filesystem \<Rightarrow> string list \<Rightarrow> filesystem" where
  "rmtree f k = (\<lambda>q. if prefix k q then None else f q)"

text \<open>
  \<open>Path.mkdir(parents=True, exist_ok=True)\<close>, as pathlib writes it: try \<open>os.mkdir\<close>;
  on \<open>FileNotFoundError\<close> make the parent in the same way and try once more; any other
  \<open>OSError\<close> is swallowed when the path is a directory by then.
\<close>

definition is_dir :: "world \<Rightarrow> path \<Rightarrow> bool" where
  "is_dir w p = (walk (fs w) (resolve w p) (path_str p) = None \<and>
                 node_at (fs w) (resolve w p) = Some Dir)"

definition mkdir_exist_ok :: "world \<Rightarrow> path \<Rightarrow> exn + world" where
  "mkdir_exist_ok w p =
     (case os_mkdir (fs w) (resolve w p) (path_str p) of
        Inr f \<Rightarrow> Inr (w\<lparr>fs := f\<rparr>)
      | Inl e \<Rightarrow> if is_dir w p then Inr w else Inl e)"

function mkdir_parents :: "world \<Rightarrow> path \<Rightarrow> exn + world" where
  "mkdir_parents w p =
     (case os_mkdir (fs w) (resolve w p) (path_str p) of
        Inr f \<Rightarrow> Inr (w\<lparr>fs := f\<rparr>)
      | Inl (FileNotFoundError n) \<Rightarrow>
          (if parts p = [] then Inl (FileNotFoundError n)
           else case mkdir_parents w (path_parent p) of
             Inl e \<Rightarrow> Inl e
           | Inr w' \<Rightarrow> mkdir_exist_ok w' p)
      | Inl e \<Rightarrow> if is_dir w p then Inr w else Inl e)"
  by pat_completeness auto
termination
  by (relation "measure (\<lambda>(w, p). length (parts p))") (auto simp: path_parent_def)

declare mkdir_parents.simps [simp del]

section \<open>The outside world\<close>

text \<open>
  What the libraries the script calls answer; none of it is code of this repository.
  \<^item> \<open>urlopen url\<close>: the transport fails before any byte arrives (\<open>Inl\<close>), or delivers
    bytes and then either completes (\<open>None\<close>) or fails (\<open>Some\<close>);
  \<^item> \<open>tempdir\<close>: the name \<open>tempfile\<close> picks for the temporary directory;
  \<^item> \<open>zip_members\<close>, \<open>tar_members\<close>: the members \<open>zipfile\<close> and \<open>tarfile\<close> read from
    the bytes of an archive (relative path and content, in archive order), or the
    message of the \<open>BadZipFile\<close> or \<open>ReadError\<close> raised on bytes that are no such
    archive.
\<close>

record env =
  urlopen :: "string \<Rightarrow> exn + string \<times> exn option"
  tempdir :: string
  zip_members :: "string \<Rightarrow> string + (string list \<times> node) list"
  tar_members :: "string \<Rightarrow> string + (string list \<times> node) list"

section \<open>calculate_file_hash\<close>

text \<open>
  \<open>iter(lambda: f.read(n), b"")\<close>: read \<open>n\<close> bytes at a time until a read returns the
  empty string.
\<close>

function read_chunks :: "nat \<Rightarrow> string \<Rightarrow> string list" where
  "read_chunks n content =
     (let chunk = take n content in
      if chunk = [] then [] else chunk # read_chunks n (drop n content))"
  by pat_completeness auto
termination
  by (relation "measure (\<lambda>(n, content). length content)") auto

declare read_chunks.simps [simp del]

definition hash_chunks :: "string list \<Rightarrow> string" where
  "hash_chunks chunks = sha256_hexdigest (foldl sha256_update sha256_new chunks)"

definition calculate_file_hash :: "world \<Rightarrow> path \<Rightarrow> exn + string" where
  "calculate_file_hash w file_path =
     (case read_file (fs w) (resolve w file_path) (path_str file_path) of
        Inl e \<Rightarrow> Inl e
      | Inr content \<Rightarrow> Inr (hash_chunks (read_chunks 4096 content)))"

section \<open>download_file\<close>

text \<open>
  \<open>urllib.request.urlretrieve\<close>: open the URL, then the destination file, then copy.
  A transfer that fails half-way leaves the bytes received so far in the file.
\<close>

definition urlretrieve :: "env \<Rightarrow> world \<Rightarrow> string \<Rightarrow> path \<Rightarrow> (exn + unit) \<times> world" where
  "urlretrieve ev w url dest =
     (let w1 = w\<lparr>requests := requests w @ [url]\<rparr> in
      case urlopen ev url of
        Inl e \<Rightarrow> (Inl e, w1)
      | Inr (data, failure) \<Rightarrow>
          (case write_file (fs w1) (resolve w1 dest) (path_str dest) data of
             Inl e \<Rightarrow> (Inl e, w1)
           | Inr f \<Rightarrow>
               (case failure of
                  Some e \<Rightarrow> (Inl e, w1\<lparr>fs := f\<rparr>)
                | None \<Rightarrow> (Inr (), w1\<lparr>fs := f\<rparr>))))"

definition download_file :: "env \<Rightarrow> world \<Rightarrow> string \<Rightarrow> path \<Rightarrow> (exn + unit) \<times> world" where
  "download_file ev w url dest_path =
     (let w1 = print w (''Downloading '' @ url @ ''...'') in
      case urlretrieve ev w1 url dest_path of
        (Inr _, w2) \<Rightarrow> (Inr (), print w2 (''Downloaded to '' @ path_str dest_path))
      | (Inl e, w2) \<Rightarrow>
          (Inl (RuntimeError (''Failed to download '' @ url @ '': '' @ exn_str e)), w2))"

section \<open>verify_hash\<close>

definition verify_hash :: "world \<Rightarrow> path \<Rightarrow> string \<Rightarrow> (exn + unit) \<times> world" where
  "verify_hash w file_path expected_hash =
     (let w1 = print w ''Verifying SHA256 hash...'' in
      case calculate_file_hash w1 file_path of
        Inl e \<Rightarrow> (Inl e, w1)
      | Inr actual_hash \<Rightarrow>
          if actual_hash \<noteq> expected_hash
          then (Inl (RuntimeError
                  (''Hash verification failed!'' @ [LF] @
                   ''Expected: '' @ expected_hash @ [LF] @
                   ''Actual:   '' @ actual_hash)), w1)
          else (Inr (), print w1 ''Hash verification passed''))"

section \<open>extract_archive\<close>

text \<open>
  \<open>extractall\<close>: the members are written below the destination one after the other, the
  directories above each created as needed; the first failure stops the extraction and
  leaves what was written before it.
\<close>

definition is_file :: "filesystem \<Rightarrow> string list \<Rightarrow> bool" where
  "is_file f k = (case node_at f k of Some (File d) \<Rightarrow> True | _ \<Rightarrow> False)"

definition makedirs :: "filesystem \<Rightarrow> string list \<Rightarrow> string \<Rightarrow> exn + filesystem" where
  "makedirs f k name =
     (case find (is_file f) (ancestors k @ [k]) of
        Some q \<Rightarrow> Inl (if q = k then FileExistsError name else NotADirectoryError name)
      | None \<Rightarrow> Inr (\<lambda>q. if q \<noteq> [] \<and> prefix q k then Some Dir else f q))"

definition write_member :: "filesystem \<Rightarrow> string list \<Rightarrow> string list \<times> node \<Rightarrow> exn + filesystem" where
  "write_member f base m =
     (let k = base @ fst m; name = ''/'' @ join ''/'' k in
      case snd m of
        Dir \<Rightarrow> makedirs f k name
      | File data \<Rightarrow>
          (case makedirs f (butlast k) name of
             Inl e \<Rightarrow> Inl e
           | Inr f1 \<Rightarrow> write_file f1 k name data))"

fun extractall :: "filesystem \<Rightarrow> string list \<Rightarrow> (string list \<times> node) list \<Rightarrow> (exn + unit) \<times> filesystem" where
  "extractall f base [] = (Inr (), f)"
| "extractall f base (m # ms) =
     (case write_member f base m of
        Inl e \<Rightarrow> (Inl e, f)
      | Inr f1 \<Rightarrow> extractall f1 base ms)"

text \<open>Opening the archive file and extracting everything, for either archive module.\<close>

definition extract_with ::
  "(string \<Rightarrow> string + (string list \<times> node) list) \<Rightarrow> (string \<Rightarrow> exn) \<Rightarrow>
   world \<Rightarrow> path \<Rightarrow> path \<Rightarrow> (exn + unit) \<times> world" where
  "extract_with members error w archive_path extract_to =
     (case read_file (fs w) (resolve w archive_path) (path_str archive_path) of
        Inl e \<Rightarrow> (Inl e, w)
      | Inr content \<Rightarrow>
          (case members content of
             Inl m \<Rightarrow> (Inl (error m), w)
           | Inr ms \<Rightarrow>
               (case extractall (fs w) (resolve w extract_to) ms of
                  (r, f) \<Rightarrow> (r, w\<lparr>fs := f\<rparr>))))"

definition extract_archive :: "env \<Rightarrow> world \<Rightarrow> path \<Rightarrow> path \<Rightarrow> (exn + unit) \<times> world" where
  "extract_archive ev w archive_path extract_to =
     (let w1 = print w (''Extracting '' @ path_str archive_path @ '' to '' @ path_str extract_to @ ''...'');
          r = (if path_suffix archive_path = ''.zip''
               then extract_with (zip_members ev) BadZipFile w1 archive_path extract_to
               else if path_suffix archive_path = ''.gz'' \<and> endswith (path_name archive_path) ''.tar.gz''
               then extract_with (tar_members ev) ReadError w1 archive_path extract_to
               else (Inl (RuntimeError (''Unsupported archive format: '' @ path_str archive_path)), w1))
      in case r of
           (Inl e, w2) \<Rightarrow> (Inl e, w2)
         | (Inr _, w2) \<Rightarrow> (Inr (), print w2 (''Extracted to '' @ path_str extract_to)))"

section \<open>download_aic_sdk\<close>

text \<open>
  \<open>with tempfile.TemporaryDirectory() as temp_dir\<close>: the directory is made, the body
  runs, and the directory is removed with all it holds whether the body returned or
  raised. The environment proposes one name; a name that cannot be made is the error
  \<open>mkdtemp\<close> ends with.
\<close>

definition with_temporary_directory ::
  "env \<Rightarrow> world \<Rightarrow> (string \<Rightarrow> world \<Rightarrow> (exn + unit) \<times> world) \<Rightarrow> (exn + unit) \<times> world" where
  "with_temporary_directory ev w body =
     (let temp_dir = tempdir ev; k = resolve w (parse_path temp_dir) in
      case os_mkdir (fs w) k temp_dir of
        Inl e \<Rightarrow> (Inl e, w)
      | Inr f \<Rightarrow>
          (case body temp_dir (w\<lparr>fs := f\<rparr>) of
             (r, w') \<Rightarrow> (r, w'\<lparr>fs := rmtree (fs w') k\<rparr>)))"

definition archive_filename :: "string \<Rightarrow> string \<Rightarrow> string \<Rightarrow> string" where
  "archive_filename platform_triplet version archive_ext =
     ''aic-sdk-'' @ platform_triplet @ ''-'' @ version @ ''.'' @ archive_ext"

definition download_url :: "string \<Rightarrow> string \<Rightarrow> string" where
  "download_url version filename =
     ''https://github.com/ai-coustics/aic-sdk-c/releases/download/'' @ version @ ''/'' @ filename"

text \<open>The body of the \<open>with\<close> block.\<close>

definition fetch_body ::
  "env \<Rightarrow> string \<Rightarrow> string \<Rightarrow> string \<Rightarrow> path \<Rightarrow> string \<Rightarrow> world \<Rightarrow> (exn + unit) \<times> world" where
  "fetch_body ev url filename expected_hash output_dir temp_dir w =
     (let temp_path = path_join (parse_path temp_dir) filename in
      case download_file ev w url temp_path of
        (Inl e, w1) \<Rightarrow> (Inl e, w1)
      | (Inr _, w1) \<Rightarrow>
          (case verify_hash w1 temp_path expected_hash of
             (Inl e, w2) \<Rightarrow> (Inl e, w2)
           | (Inr _, w2) \<Rightarrow> extract_archive ev w2 temp_path output_dir))"

definition load_platform_config :: "world \<Rightarrow> path \<Rightarrow> exn + config" where
  "load_platform_config w versions_file =
     (if \<not> (walk (fs w) (resolve w versions_file) (path_str versions_file) = None \<and>
             node_at (fs w) (resolve w versions_file) \<noteq> None)
      then Inl (RuntimeError (''VERSIONS.txt file not found: '' @ path_str versions_file))
      else case read_file (fs w) (resolve w versions_file) (path_str versions_file) of
        Inl e \<Rightarrow> Inl e
      | Inr content \<Rightarrow> load_text content)"

definition download_aic_sdk ::
  "env \<Rightarrow> world \<Rightarrow> string \<Rightarrow> path \<Rightarrow> string \<Rightarrow> path \<Rightarrow> (exn + unit) \<times> world" where
  "download_aic_sdk ev w version output_dir platform_triplet versions_file =
     (let w1 = print w (''Platform: '' @ platform_triplet) in
      case load_platform_config w1 versions_file of
        Inl e \<Rightarrow> (Inl e, w1)
      | Inr config \<Rightarrow>
          (case config version of
             None \<Rightarrow>
               (Inl (RuntimeError
                  (''Version '' @ version @ '' not found in '' @ path_str versions_file)), w1)
           | Some platforms \<Rightarrow>
               (case platforms platform_triplet of
                  None \<Rightarrow>
                    (Inl (RuntimeError
                       (''Platform '' @ platform_triplet @ '' not supported for version '' @ version)),
                     w1)
                | Some (archive_ext, expected_hash) \<Rightarrow>
                    (let filename = archive_filename platform_triplet version archive_ext;
                         url = download_url version filename;
                         w2 = print w1 (''Download URL: '' @ url)
                     in case mkdir_parents w2 output_dir of
                          Inl e \<Rightarrow> (Inl e, w2)
                        | Inr w3 \<Rightarrow>
                            (case with_temporary_directory ev w3
                                    (fetch_body ev url filename expected_hash output_dir) of
                               (Inl e, w4) \<Rightarrow> (Inl e, w4)
                             | (Inr _, w4) \<Rightarrow>
                                 (Inr (), print w4
                                    (''AIC SDK '' @ version @
                                     '' successfully downloaded and extracted to '' @
                                     path_str output_dir)))))))"

section \<open>The configuration format, as the specification words it\<close>










text \<open>
  Looking a pair up in the loaded table, as \<open>download_aic_sdk\<close> does:
  \<open>version in config\<close>, then \<open>platform_triplet in config[version]\<close>.
\<close>

definition table_lookup :: "config \<Rightarrow> string \<times> string \<Rightarrow> (string \<times> string) option" where
  "table_lookup config k = (case config (fst k) of None \<Rightarrow> None | Some m \<Rightarrow> m (snd k))"

section \<open>The download URL, as the specification words it\<close>

text \<open>
  The template of the specification:
  \<open>https://<host>/<org>/<repo>/releases/download/<version>/<repo>-<platform>-<version>.<ext>\<close>.
\<close>

definition spec_url ::
  "string \<Rightarrow> string \<Rightarrow> string \<Rightarrow> string \<Rightarrow> string \<Rightarrow> string \<Rightarrow> string" where
  "spec_url host org repo version platform_triplet ext =
     ''https://'' @ host @ ''/'' @ org @ ''/'' @ repo @ ''/releases/download/'' @ version @ ''/'' @
     repo @ ''-'' @ platform_triplet @ ''-'' @ version @ ''.'' @ ext"

text \<open>
  The segments of a URL between slashes: after \<open>https:\<close> and the empty segment come the
  host, the organisation and the repository; the last segment is the file name.
\<close>

definition url_segments :: "string \<Rightarrow> string list" where
  "url_segments url = split (CHR ''/'') url"

definition repo_segment :: "string \<Rightarrow> string" where
  "repo_segment url = url_segments url ! 4"

definition file_segment :: "string \<Rightarrow> string" where
  "file_segment url = last (url_segments url)"

section \<open>Example inputs\<close>

text \<open>
  A configuration file with a comment, a blank line, the row of the specification's
  scenario (the checksum is the SHA-256 of \<open>hello\<close>), two rows for the same pair and
  a row whose extension is a bare \<open>gz\<close>.
\<close>

definition sha256_of_hello :: string where
  "sha256_of_hello = ''2cf24dba5fb0a30e26e83b2ac5b9e29e1b161e5c1fa7425e73043362938b9824''"

definition example_versions :: string where
  "example_versions =
     ''# version'' @ [TAB] @ ''platform, ext, hash'' @ [LF] @
     [LF] @
     ''1.0.0'' @ [TAB] @ ''x86_64-unknown-linux-gnu, tar.gz, '' @ sha256_of_hello @ [LF] @
     ''1.0.0'' @ [TAB] @ ''x86_64-pc-windows-msvc, zip, 00'' @ [CR, LF] @
     ''1.0.0'' @ [TAB] @ ''  x86_64-pc-windows-msvc ,zip,  11'' @ [LF] @
     ''1.1.0'' @ [TAB] @ ''aarch64-apple-darwin, gz, '' @ sha256_of_hello @ [LF]"

text \<open>A file whose fourth line has two fields after the tab instead of three.\<close>

definition example_bad_versions :: string where
  "example_bad_versions =
     ''# versions'' @ [LF] @
     ''1.0.0'' @ [TAB] @ ''x86_64-unknown-linux-gnu, tar.gz, 00'' @ [LF] @
     [LF] @
     ''1.0.0'' @ [TAB] @ ''x86_64-pc-windows-msvc, zip'' @ [LF] @
     ''1.1.0 aarch64-apple-darwin, tar.gz, 22'' @ [LF]"

definition example_fs :: filesystem where
  "example_fs =
     Map.empty
       ([''tmp''] \<mapsto> Dir,
        [''work''] \<mapsto> Dir,
        [''work'', ''VERSIONS.txt''] \<mapsto> File example_versions,
        [''work'', ''BAD.txt''] \<mapsto> File example_bad_versions,
        [''work'', ''hello.bin''] \<mapsto> File ''hello'',
        [''work'', ''sdk.tar.gz''] \<mapsto> File ''hello'')"

definition example_world :: world where
  "example_world = \<lparr>fs = example_fs, cwd = [''work''], stdout = [], requests = []\<rparr>"

text \<open>
  Every URL answers with the five bytes \<open>hello\<close>; they are no zip file, and read as a
  tar archive they hold one file.
\<close>

definition example_env :: env where
  "example_env =
     \<lparr>urlopen = (\<lambda>url. Inr (''hello'', None)),
      tempdir = ''/tmp/tmpk3x9'',
      zip_members = (\<lambda>b. Inl ''File is not a zip file''),
      tar_members = (\<lambda>b. Inr [([''lib'', ''libaic.a''], File b)])\<rparr>"

definition versions_txt :: path where
  "versions_txt = Path False [''VERSIONS.txt'']"


definition hello_bin :: path where
  "hello_bin = Path False [''hello.bin'']"

definition sdk_tar_gz :: path where
  "sdk_tar_gz = Path False [''sdk.tar.gz'']"

definition sdk_dir :: path where
  "sdk_dir = Path False [''out'', ''sdk'']"

section \<open>Auxiliary definitions for the proofs\<close>


text \<open>The hash object after the bytes \<open>m\<close> have been fed to a new one.\<close>

definition ctx_of :: "string \<Rightarrow> sha256_ctx" where
  "ctx_of m = (case absorb H256 m of (hs, r) \<Rightarrow> \<lparr>chain = hs, pending = r, fed = length m\<rparr>)"

text \<open>
  The file system after \<open>mkdir(parents=True, exist_ok=True)\<close> of the entry \<open>k\<close> has
  succeeded: \<open>k\<close> and the entries above it are directories, all else is as before.
\<close>

definition made_dirs :: "filesystem \<Rightarrow> string list \<Rightarrow> filesystem" where
  "made_dirs f k = (\<lambda>q. if q \<noteq> [] \<and> prefix q k then Some Dir else f q)"

text \<open>The two messages that name a failed verification and an unrecognised archive.\<close>

definition hash_mismatch_message :: "string \<Rightarrow> string \<Rightarrow> string" where
  "hash_mismatch_message expected actual =
     ''Hash verification failed!'' @ [LF] @ ''Expected: '' @ expected @ [LF] @ ''Actual:   '' @ actual"

definition unsupported_message :: "path \<Rightarrow> string" where
  "unsupported_message archive_path = ''Unsupported archive format: '' @ path_str archive_path"

text \<open>
  Names for three terms of \<open>download_aic_sdk\<close>: the file-system key of the temporary
  directory, \<open>Path(temp_dir) / filename\<close>, and the URL built from the f-strings.
\<close>

definition temp_key :: "env \<Rightarrow> world \<Rightarrow> string list" where
  "temp_key ev w = resolve w (parse_path (tempdir ev))"

definition temp_path :: "env \<Rightarrow> string \<Rightarrow> path" where
  "temp_path ev filename = path_join (parse_path (tempdir ev)) filename"

definition request_url :: "string \<Rightarrow> string \<Rightarrow> string \<Rightarrow> string" where
  "request_url version platform_triplet archive_ext =
     download_url version (archive_filename platform_triplet version archive_ext)"

section \<open>Splitting and trimming\<close>












section \<open>Loading the version table\<close>

lemma isspace_tab: "isspace TAB"
  by (simp add: isspace_def TAB_def)

























section \<open>The incremental hash\<close>

lemma absorb_short: "length bs < 64 \<Longrightarrow> absorb hs bs = (hs, bs)"
  by (simp add: absorb.simps)

lemma absorb_long:
  "\<not> length bs < 64 \<Longrightarrow> absorb hs bs = absorb (compress hs (take 64 bs)) (drop 64 bs)"
  by (subst absorb.simps) simp

lemma absorb_append:
  "absorb hs (xs @ ys) = (case absorb hs xs of (h', r) \<Rightarrow> absorb h' (r @ ys))"
proof (induction hs xs rule: absorb.induct)
  case (1 hs bs)
  show ?case
  proof (cases "length bs < 64")
    case True
    then show ?thesis by (simp add: absorb_short)
  next
    case False
    then have "absorb hs (bs @ ys) = absorb (compress hs (take 64 bs)) (drop 64 bs @ ys)"
      by (subst absorb.simps) simp
    also have "\<dots> = (case absorb (compress hs (take 64 bs)) (drop 64 bs) of
                        (h', r) \<Rightarrow> absorb h' (r @ ys))"
      using 1 False by simp
    also have "\<dots> = (case absorb hs bs of (h', r) \<Rightarrow> absorb h' (r @ ys))"
      using False by (simp add: absorb_long)
    finally show ?thesis .
  qed
qed

lemma absorb_blocks:
  "length bs = 64 * n \<Longrightarrow> absorb hs bs = (foldl compress hs (blocks n bs), [])"
proof (induction n arbitrary: hs bs)
  case 0
  then show ?case by (simp add: absorb_short)
next
  case (Suc n)
  then have "\<not> length bs < 64" by simp
  then have "absorb hs bs = absorb (compress hs (take 64 bs)) (drop 64 bs)"
    by (rule absorb_long)
  moreover have "length (drop 64 bs) = 64 * n" using Suc.prems by simp
  ultimately show ?case using Suc.IH by simp
qed

lemma length_be64: "length (be64 w) = 8"
  by (simp add: be64_def)

lemma length_padding: "length (padding n) = 9 + (119 - n mod 64) mod 64"
  by (simp add: padding_def length_be64)

lemma padded_length: "(n + length (padding n)) mod 64 = 0"
proof -
  define r where "r = n mod 64"
  define q where "q = n div 64"
  have n: "n = 64 * q + r" and r: "r < 64" by (simp_all add: r_def q_def)
  have "(n + (9 + (119 - r) mod 64)) mod 64 = 0"
  proof (cases "r \<le> 55")
    case True
    then have "119 - r = (55 - r) + 64" by simp
    then have "(119 - r) mod 64 = (55 - r) mod 64" by (simp only: mod_add_self2)
    then have m: "(119 - r) mod 64 = 55 - r" by simp
    have "n + (9 + (55 - r)) = 64 * (q + 1)" using True n by simp
    then show ?thesis using m by (simp only: mod_mult_self1_is_0)
  next
    case False
    then have m: "(119 - r) mod 64 = 119 - r" by simp
    have "n + (9 + (119 - r)) = 64 * (q + 2)" using r n by simp
    then show ?thesis using m by (simp only: mod_mult_self1_is_0)
  qed
  then show ?thesis unfolding r_def length_padding .
qed

lemma ctx_of_empty: "sha256_new = ctx_of []"
  by (simp add: sha256_new_def ctx_of_def absorb_short)

lemma update_ctx_of: "sha256_update (ctx_of m) d = ctx_of (m @ d)"
proof -
  obtain hs r where a: "absorb H256 m = (hs, r)" by (cases "absorb H256 m")
  have b: "absorb H256 (m @ d) = absorb hs (r @ d)"
    using absorb_append[of H256 m d] a by simp
  show ?thesis by (simp add: sha256_update_def ctx_of_def a b)
qed

lemma foldl_update_ctx_of: "foldl sha256_update (ctx_of m) cs = ctx_of (m @ concat cs)"
  by (induction cs arbitrary: m) (simp_all add: update_ctx_of)

lemma hexdigest_ctx_of: "sha256_hexdigest (ctx_of m) = hex_of_state (sha256 m)"
proof -
  have "64 dvd length (m @ padding (length m))"
    using padded_length[of "length m"] by (simp add: mod_eq_0_iff_dvd)
  then obtain n where n: "length (m @ padding (length m)) = 64 * n"
    by (rule dvdE)
  then have d: "length (m @ padding (length m)) div 64 = n" by simp
  have "absorb H256 (m @ padding (length m)) =
        (foldl compress H256 (blocks n (m @ padding (length m))), [])"
    using n by (rule absorb_blocks)
  then have one: "fst (absorb H256 (m @ padding (length m))) = sha256 m"
    using d by (simp add: sha256_def Let_def)
  obtain hs r where a: "absorb H256 m = (hs, r)" by (cases "absorb H256 m")
  have b: "absorb H256 (m @ padding (length m)) = absorb hs (r @ padding (length m))"
    using absorb_append[of H256 m "padding (length m)"] a by simp
  have "sha256_hexdigest (ctx_of m) = hex_of_state (fst (absorb hs (r @ padding (length m))))"
    by (simp add: sha256_hexdigest_def ctx_of_def a)
  then show ?thesis using one b by simp
qed

lemma hash_chunks_concat: "hash_chunks cs = hex_of_state (sha256 (concat cs))"
  using foldl_update_ctx_of[of "[]" cs]
  by (simp add: hash_chunks_def ctx_of_empty hexdigest_ctx_of)

lemma read_chunks_empty: "take n content = [] \<Longrightarrow> read_chunks n content = []"
  by (subst read_chunks.simps) (simp add: Let_def)

lemma read_chunks_step:
  "take n content \<noteq> [] \<Longrightarrow>
   read_chunks n content = take n content # read_chunks n (drop n content)"
  by (subst read_chunks.simps) (simp add: Let_def)

lemma concat_read_chunks: "0 < n \<Longrightarrow> concat (read_chunks n content) = content"
proof (induction n content rule: read_chunks.induct)
  case (1 n content)
  show ?case
  proof (cases "take n content = []")
    case True
    then have "content = []" using 1(2) by simp
    then show ?thesis by (simp add: read_chunks_empty)
  next
    case False
    then have "concat (read_chunks n (drop n content)) = drop n content"
      using 1 by simp
    then show ?thesis using False by (simp add: read_chunks_step)
  qed
qed

lemma read_chunks_zero: "read_chunks 0 content = []"
  by (simp add: read_chunks_empty)

lemma length_hex32: "length (hex32 x) = 8"
  by (simp add: hex32_def)

lemma length_hex_of_state: "length (hex_of_state v) = 64"
  by (simp add: hex_of_state_def length_hex32 split: prod.splits)

lemma sha256_hello: "hex_of_state (sha256 ''hello'') = sha256_of_hello"
  unfolding sha256_of_hello_def by code_simp

lemma calculate_file_hash_one_pass:
  "read_file (fs w) (resolve w file_path) (path_str file_path) = Inr content \<Longrightarrow>
   calculate_file_hash w file_path = Inr (hex_of_state (sha256 content))"
  by (simp add: calculate_file_hash_def hash_chunks_concat concat_read_chunks)

text \<open>
  Claim C10. The hash \<open>calculate_file_hash\<close> computes, feeding the file to the hash
  object 4096 bytes at a time, is the SHA-256 digest of the whole content in one pass;
  so is the result for every other positive chunk size, and for every way of cutting the
  content into chunks.
\<close>

theorem chunked_hash_is_one_pass:
  "(read_file (fs w) (resolve w file_path) (path_str file_path) = Inr content \<longrightarrow>
      calculate_file_hash w file_path = Inr (hex_of_state (sha256 content))) \<and>
   (0 < n \<longrightarrow> hash_chunks (read_chunks n content) = hex_of_state (sha256 content)) \<and>
   (concat chunks = content \<longrightarrow> hash_chunks chunks = hex_of_state (sha256 content))"
proof (intro conjI impI)
  assume "read_file (fs w) (resolve w file_path) (path_str file_path) = Inr content"
  then show "calculate_file_hash w file_path = Inr (hex_of_state (sha256 content))"
    by (rule calculate_file_hash_one_pass)
next
  assume "0 < n"
  then have "concat (read_chunks n content) = content" by (rule concat_read_chunks)
  then show "hash_chunks (read_chunks n content) = hex_of_state (sha256 content)"
    by (simp add: hash_chunks_concat)
next
  assume "concat chunks = content"
  then show "hash_chunks chunks = hex_of_state (sha256 content)"
    by (simp add: hash_chunks_concat)
qed

theorem chunked_hash_is_one_pass_witness:
  "calculate_file_hash example_world hello_bin = Inr sha256_of_hello \<and>
   hash_chunks (read_chunks 2 ''hello'') = sha256_of_hello \<and>
   hash_chunks [''h'', '''', ''ell'', ''o''] = sha256_of_hello"
proof -
  have h1: "read_file (fs example_world) (resolve example_world hello_bin) (path_str hello_bin) =
              Inr ''hello''"
    by code_simp
  have h2: "(0::nat) < 2" by simp
  have h3: "concat [''h'', '''', ''ell'', ''o''] = ''hello''" by simp
  show ?thesis
    using chunked_hash_is_one_pass[of example_world hello_bin "''hello''" 2 "[''h'', '''', ''ell'', ''o'']"]
      h1 h2 h3 sha256_hello
    by simp
qed

section \<open>The file system operations\<close>

lemma set_ancestors: "set (ancestors k) = {q. q \<noteq> [] \<and> strict_prefix q k}"
proof (intro set_eqI iffI)
  fix q assume "q \<in> set (ancestors k)"
  then obtain n where n: "1 \<le> n" "n < length k" and q: "q = take n k"
    by (auto simp: ancestors_def)
  have "prefix q k" using q by (simp add: take_is_prefix)
  moreover have "length q < length k" using n q by simp
  moreover have "q \<noteq> []" using n q by auto
  ultimately show "q \<in> {q. q \<noteq> [] \<and> strict_prefix q k}"
    by (auto simp: strict_prefix_def)
next
  fix q assume "q \<in> {q. q \<noteq> [] \<and> strict_prefix q k}"
  then have ne: "q \<noteq> []" and sp: "strict_prefix q k" by simp_all
  then obtain zs where k: "k = q @ zs" and zs: "zs \<noteq> []"
    by (auto simp: strict_prefix_def prefix_def)
  have "q = take (length q) k" using k by simp
  moreover have "1 \<le> length q" using ne by (cases q) simp_all
  moreover have "length q < length k" using k zs by simp
  ultimately show "q \<in> set (ancestors k)"
    unfolding ancestors_def by (metis (no_types, lifting) atLeastLessThan_iff image_eqI set_map set_upt)
qed

lemma walk_None: "walk f k name = None \<longleftrightarrow> (\<forall>q. q \<noteq> [] \<and> strict_prefix q k \<longrightarrow> f q = Some Dir)"
proof -
  have "walk f k name = None \<longleftrightarrow> find (\<lambda>q. f q \<noteq> Some Dir) (ancestors k) = None"
    by (simp add: walk_def split: option.splits)
  also have "\<dots> \<longleftrightarrow> (\<forall>q \<in> set (ancestors k). f q = Some Dir)"
    by (auto simp: find_None_iff)
  finally show ?thesis by (simp add: set_ancestors)
qed

lemma walk_Some:
  "walk f k name = Some e \<Longrightarrow> e = FileNotFoundError name \<or> e = NotADirectoryError name"
  by (auto simp: walk_def split: option.splits if_splits)

lemma os_mkdir_Inr:
  "os_mkdir f k name = Inr f' \<Longrightarrow>
     f' = f(k \<mapsto> Dir) \<and> walk f k name = None \<and> k \<noteq> [] \<and> f k = None"
  by (auto simp: os_mkdir_def split: if_splits option.splits)

lemma os_mkdir_Inl:
  "os_mkdir f k name = Inl e \<Longrightarrow>
     e = FileExistsError name \<or> e = FileNotFoundError name \<or> e = NotADirectoryError name"
  by (auto simp: os_mkdir_def split: if_splits option.splits dest: walk_Some)

lemma os_mkdir_ENOENT: "os_mkdir f k name = Inl (FileNotFoundError n) \<Longrightarrow> k \<noteq> []"
  by (auto simp: os_mkdir_def split: if_splits)

lemma made_dirs_root: "made_dirs f [] = f"
  by (auto simp: made_dirs_def)

lemma made_dirs_walked:
  assumes "walk f k name = None" and "k \<noteq> []"
  shows "made_dirs f k = f(k \<mapsto> Dir)"
proof
  fix q
  show "made_dirs f k q = (f(k \<mapsto> Dir)) q"
  proof (cases "q \<noteq> [] \<and> prefix q k")
    case False
    then show ?thesis using assms(2) by (auto simp: made_dirs_def)
  next
    case True
    show ?thesis
    proof (cases "q = k")
      case True
      then show ?thesis using assms(2) by (simp add: made_dirs_def)
    next
      case False
      then have "strict_prefix q k" using True by (simp add: strict_prefix_def)
      then have "f q = Some Dir" using assms(1) True by (simp add: walk_None)
      then show ?thesis using True False by (simp add: made_dirs_def)
    qed
  qed
qed

lemma made_dirs_is_dir:
  assumes "is_dir w p"
  shows "made_dirs (fs w) (resolve w p) = fs w"
proof (cases "resolve w p = []")
  case True
  then show ?thesis by (simp add: made_dirs_root)
next
  case False
  from assms have wk: "walk (fs w) (resolve w p) (path_str p) = None"
    and d: "fs w (resolve w p) = Some Dir"
    using False by (simp_all add: is_dir_def node_at_def)
  have "made_dirs (fs w) (resolve w p) = (fs w)(resolve w p \<mapsto> Dir)"
    using wk False by (rule made_dirs_walked)
  then show ?thesis using d by (simp add: fun_upd_idem)
qed

lemma prefix_butlast_iff:
  "k \<noteq> [] \<Longrightarrow> prefix q k \<longleftrightarrow> q = k \<or> prefix q (butlast k)"
  by (metis append_butlast_last_id prefix_snoc)

lemma made_dirs_step:
  "k \<noteq> [] \<Longrightarrow> made_dirs f k = (made_dirs f (butlast k))(k \<mapsto> Dir)"
  by (rule ext) (auto simp: made_dirs_def prefix_butlast_iff)

lemma resolve_parent:
  "parts p \<noteq> [] \<Longrightarrow> resolve w (path_parent p) = butlast (resolve w p)"
  by (simp add: resolve_def path_parent_def butlast_append)

lemma resolve_fs_update [simp]: "resolve (w\<lparr>fs := f\<rparr>) p = resolve w p"
  by (simp add: resolve_def)

lemma mkdir_exist_ok_made:
  assumes "mkdir_exist_ok w p = Inr w'"
  shows "w' = w\<lparr>fs := (fs w)(resolve w p \<mapsto> Dir)\<rparr> \<and> resolve w p \<noteq> [] \<or> w' = w \<and> is_dir w p"
  using assms
  by (auto simp: mkdir_exist_ok_def split: sum.splits if_splits dest!: os_mkdir_Inr)

lemma mkdir_parents_made:
  "mkdir_parents w p = Inr w' \<Longrightarrow> w' = w\<lparr>fs := made_dirs (fs w) (resolve w p)\<rparr>"
proof (induction w p arbitrary: w' rule: mkdir_parents.induct)
  case (1 w p)
  let ?k = "resolve w p"
  show ?case
  proof (cases "os_mkdir (fs w) ?k (path_str p)")
    case (Inr f)
    then have "w' = w\<lparr>fs := f\<rparr>" using "1.prems" by (subst (asm) mkdir_parents.simps) simp
    moreover have "f = made_dirs (fs w) ?k"
      using os_mkdir_Inr[OF Inr] made_dirs_walked by metis
    ultimately show ?thesis by simp
  next
    case (Inl e)
    show ?thesis
    proof (cases "\<exists>n. e = FileNotFoundError n")
      case False
      then have "w' = w \<and> is_dir w p" using "1.prems" Inl
        by (subst (asm) mkdir_parents.simps) (cases e; simp split: if_splits)
      then show ?thesis using made_dirs_is_dir by simp
    next
      case True
      then obtain n where e: "e = FileNotFoundError n" by blast
      have kne: "?k \<noteq> []" using Inl e os_mkdir_ENOENT by blast
      have pne: "parts p \<noteq> []"
        using "1.prems" Inl e by (subst (asm) mkdir_parents.simps) (simp split: if_splits)
      then obtain w1 where w1: "mkdir_parents w (path_parent p) = Inr w1"
        and ok: "mkdir_exist_ok w1 p = Inr w'"
        using "1.prems" Inl e
        by (subst (asm) mkdir_parents.simps) (simp split: sum.splits)
      have w1_eq: "w1 = w\<lparr>fs := made_dirs (fs w) (butlast ?k)\<rparr>"
        using "1.IH"[OF Inl e pne w1] pne by (simp add: resolve_parent)
      have step: "made_dirs (fs w) ?k = (made_dirs (fs w) (butlast ?k))(?k \<mapsto> Dir)"
        using kne by (rule made_dirs_step)
      from mkdir_exist_ok_made[OF ok] show ?thesis
      proof
        assume "w' = w1\<lparr>fs := (fs w1)(resolve w1 p \<mapsto> Dir)\<rparr> \<and> resolve w1 p \<noteq> []"
        then have "w' = w\<lparr>fs := (made_dirs (fs w) (butlast ?k))(?k \<mapsto> Dir)\<rparr>"
          using w1_eq by simp
        then show ?thesis by (simp only: step)
      next
        assume a: "w' = w1 \<and> is_dir w1 p"
        then have "made_dirs (fs w1) (resolve w1 p) = fs w1" using made_dirs_is_dir by blast
        then have "fs w1 ?k = Some Dir" using kne w1_eq
          by (metis made_dirs_def prefix_order.order_refl resolve_fs_update)
        then have "(fs w1)(?k \<mapsto> Dir) = fs w1" by (simp add: fun_upd_idem)
        then have "(made_dirs (fs w) (butlast ?k))(?k \<mapsto> Dir) = made_dirs (fs w) (butlast ?k)"
          using w1_eq by simp
        then have "made_dirs (fs w) ?k = made_dirs (fs w) (butlast ?k)"
          by (simp only: step)
        then show ?thesis using a w1_eq by simp
      qed
    qed
  qed
qed

lemma mkdir_parents_cwd: "mkdir_parents w p = Inr w' \<Longrightarrow> cwd w' = cwd w"
  by (drule mkdir_parents_made) simp

lemma mkdir_parents_error:
  "mkdir_parents w p = Inl e \<Longrightarrow> \<forall>m. e \<noteq> RuntimeError m"
proof (induction w p arbitrary: e rule: mkdir_parents.induct)
  case (1 w p)
  show ?case
  proof (cases "os_mkdir (fs w) (resolve w p) (path_str p)")
    case (Inr f)
    then show ?thesis using "1.prems" by (subst (asm) mkdir_parents.simps) simp
  next
    case (Inl e0)
    note e0 = os_mkdir_Inl[OF Inl]
    show ?thesis
    proof (cases "\<exists>n. e0 = FileNotFoundError n")
      case False
      then have "e = e0" using "1.prems" Inl
        by (subst (asm) mkdir_parents.simps) (cases e0; simp split: if_splits)
      then show ?thesis using e0 by auto
    next
      case True
      then obtain n where n: "e0 = FileNotFoundError n" by blast
      show ?thesis
      proof (cases "parts p = []")
        case True
        then have "e = e0" using "1.prems" Inl n
          by (subst (asm) mkdir_parents.simps) simp
        then show ?thesis using n by simp
      next
        case False
        show ?thesis
        proof (cases "mkdir_parents w (path_parent p)")
          case (Inl e1)
          then have "e = e1" using "1.prems" \<open>os_mkdir _ _ _ = Inl e0\<close> n False
            by (subst (asm) mkdir_parents.simps) simp
          then show ?thesis using "1.IH"[OF \<open>os_mkdir _ _ _ = Inl e0\<close> n False Inl] by simp
        next
          case (Inr w1)
          then have "mkdir_exist_ok w1 p = Inl e"
            using "1.prems" \<open>os_mkdir _ _ _ = Inl e0\<close> n False
            by (subst (asm) mkdir_parents.simps) simp
          then show ?thesis
            by (auto simp: mkdir_exist_ok_def split: sum.splits if_splits dest!: os_mkdir_Inl)
        qed
      qed
    qed
  qed
qed

section \<open>What each step of the download does to the world\<close>

lemma print_simps [simp]:
  "fs (print w s) = fs w" "cwd (print w s) = cwd w" "requests (print w s) = requests w"
  "stdout (print w s) = stdout w @ [s]" "resolve (print w s) p = resolve w p"
  by (simp_all add: print_def resolve_def)

lemma load_platform_config_print [simp]:
  "load_platform_config (print w s) versions_file = load_platform_config w versions_file"
  by (simp add: load_platform_config_def)

lemma load_loop_error:
  "load_loop xs cfg = Inl e \<Longrightarrow> \<exists>m. e = RuntimeError (''Error parsing VERSIONS.txt line '' @ m)"
proof (induction xs arbitrary: cfg)
  case Nil
  then show ?case by simp
next
  case (Cons x xs)
  obtain n raw where x: "x = (n, raw)" by (cases x)
  show ?case
  proof (cases "strip raw = [] \<or> startswith (strip raw) ''#''")
    case True
    then show ?thesis using Cons x by (simp add: Let_def)
  next
    case False
    show ?thesis
    proof (cases "parse_line (strip raw)")
      case (Inl a)
      then show ?thesis using Cons.prems x False by (auto simp: Let_def)
    next
      case (Inr b)
      then show ?thesis using Cons x False by (auto simp: Let_def split: prod.splits)
    qed
  qed
qed

lemma read_file_error: "read_file f k name = Inl e \<Longrightarrow> e \<noteq> RuntimeError m"
  by (auto simp: read_file_def split: option.splits node.splits dest: walk_Some)

lemma load_platform_config_error:
  assumes "load_platform_config w versions_file = Inl (RuntimeError m)"
  shows "hd m = CHR ''V'' \<or> hd m = CHR ''E''"
proof (cases "walk (fs w) (resolve w versions_file) (path_str versions_file) = None \<and>
              node_at (fs w) (resolve w versions_file) \<noteq> None")
  case False
  then have "m = ''VERSIONS.txt file not found: '' @ path_str versions_file"
    using assms by (simp add: load_platform_config_def)
  then show ?thesis by simp
next
  case True
  show ?thesis
  proof (cases "read_file (fs w) (resolve w versions_file) (path_str versions_file)")
    case (Inl e)
    then have "e = RuntimeError m" using assms True by (simp add: load_platform_config_def)
    then show ?thesis using read_file_error[OF Inl] by simp
  next
    case (Inr content)
    then have "load_text content = Inl (RuntimeError m)"
      using assms True by (simp add: load_platform_config_def)
    then obtain m' where "m = ''Error parsing VERSIONS.txt line '' @ m'"
      using load_loop_error unfolding load_text_def by blast
    then show ?thesis by simp
  qed
qed

lemma write_file_Inr:
  "write_file f k name data = Inr f' \<Longrightarrow> f' = f(k \<mapsto> File data) \<and> walk f k name = None \<and> k \<noteq> []"
  by (auto simp: write_file_def split: if_splits option.splits)

lemma write_file_error: "write_file f k name data = Inl e \<Longrightarrow> e \<noteq> RuntimeError m"
  by (auto simp: write_file_def split: if_splits option.splits dest: walk_Some)

lemma makedirs_error: "makedirs f k name = Inl e \<Longrightarrow> e \<noteq> RuntimeError m"
  by (auto simp: makedirs_def split: option.splits if_splits)

lemma write_member_error: "write_member f base mem = Inl e \<Longrightarrow> e \<noteq> RuntimeError m"
  by (auto simp: write_member_def Let_def split: node.splits sum.splits
           dest: makedirs_error write_file_error)

lemma extractall_error: "extractall f base ms = (Inl e, f') \<Longrightarrow> e \<noteq> RuntimeError m"
proof (induction ms arbitrary: f)
  case Nil
  then show ?case by simp
next
  case (Cons a ms)
  then show ?case by (auto split: sum.splits dest: write_member_error)
qed

lemma extract_with_effect:
  assumes "extract_with members error w archive_path extract_to = (r, w')"
    and "\<And>x m. error x \<noteq> RuntimeError m"
  shows "cwd w' = cwd w \<and> requests w' = requests w \<and> stdout w' = stdout w \<and>
         (\<forall>m. r \<noteq> Inl (RuntimeError m))"
  using assms
  by (auto simp: extract_with_def split: sum.splits prod.splits
           dest: read_file_error extractall_error)

lemma extract_archive_effect:
  assumes "extract_archive ev w archive_path extract_to = (r, w')"
  shows "cwd w' = cwd w \<and> requests w' = requests w \<and>
         (\<forall>m. r = Inl (RuntimeError m) \<longrightarrow> m = unsupported_message archive_path \<and> fs w' = fs w)"
proof -
  let ?w1 = "print w (''Extracting '' @ path_str archive_path @ '' to '' @ path_str extract_to @ ''...'')"
  show ?thesis
  proof (cases "path_suffix archive_path = ''.zip''")
    case True
    obtain r1 w1 where x: "extract_with (zip_members ev) BadZipFile ?w1 archive_path extract_to = (r1, w1)"
      by (cases "extract_with (zip_members ev) BadZipFile ?w1 archive_path extract_to")
    have e: "cwd w1 = cwd ?w1 \<and> requests w1 = requests ?w1 \<and> stdout w1 = stdout ?w1 \<and>
             (\<forall>m. r1 \<noteq> Inl (RuntimeError m))"
      using x by (rule extract_with_effect) simp
    show ?thesis using assms True x e
      by (cases r1) (auto simp: extract_archive_def Let_def)
  next
    case False
    show ?thesis
    proof (cases "path_suffix archive_path = ''.gz'' \<and> endswith (path_name archive_path) ''.tar.gz''")
      case True
      obtain r1 w1 where x: "extract_with (tar_members ev) ReadError ?w1 archive_path extract_to = (r1, w1)"
        by (cases "extract_with (tar_members ev) ReadError ?w1 archive_path extract_to")
      have e: "cwd w1 = cwd ?w1 \<and> requests w1 = requests ?w1 \<and> stdout w1 = stdout ?w1 \<and>
               (\<forall>m. r1 \<noteq> Inl (RuntimeError m))"
        using x by (rule extract_with_effect) simp
      show ?thesis using assms True \<open>path_suffix archive_path \<noteq> ''.zip''\<close> x e
        by (cases r1) (auto simp: extract_archive_def Let_def)
    next
      case False
      then show ?thesis using assms \<open>path_suffix archive_path \<noteq> ''.zip''\<close>
        by (auto simp: extract_archive_def Let_def unsupported_message_def)
    qed
  qed
qed

lemma calculate_file_hash_error:
  "calculate_file_hash w p = Inl e \<Longrightarrow> e \<noteq> RuntimeError m"
  by (auto simp: calculate_file_hash_def split: sum.splits dest: read_file_error)

lemma calculate_file_hash_Inr:
  "calculate_file_hash w p = Inr h \<Longrightarrow>
   \<exists>content. read_file (fs w) (resolve w p) (path_str p) = Inr content \<and>
             h = hex_of_state (sha256 content)"
  by (auto simp: calculate_file_hash_def hash_chunks_concat concat_read_chunks split: sum.splits)

lemma verify_hash_effect:
  assumes "verify_hash w p expected = (r, w')"
  shows "fs w' = fs w \<and> cwd w' = cwd w \<and> requests w' = requests w \<and>
         (\<forall>m. r = Inl (RuntimeError m) \<longrightarrow>
            (\<exists>content. read_file (fs w) (resolve w p) (path_str p) = Inr content \<and>
                       hex_of_state (sha256 content) \<noteq> expected \<and>
                       m = hash_mismatch_message expected (hex_of_state (sha256 content))))"
proof (cases "calculate_file_hash (print w ''Verifying SHA256 hash...'') p")
  case (Inl e)
  then show ?thesis using assms calculate_file_hash_error[OF Inl]
    by (auto simp: verify_hash_def Let_def)
next
  case (Inr h)
  from calculate_file_hash_Inr[OF Inr] obtain content where
    c: "read_file (fs w) (resolve w p) (path_str p) = Inr content" "h = hex_of_state (sha256 content)"
    by auto
  show ?thesis using assms Inr c
    by (auto simp: verify_hash_def Let_def hash_mismatch_message_def split: if_splits)
qed

lemma urlretrieve_effect:
  assumes "urlretrieve ev w url dest = (r, w')"
  shows "cwd w' = cwd w \<and> requests w' = requests w @ [url] \<and> stdout w' = stdout w \<and>
         (fs w' = fs w \<or> (\<exists>data. fs w' = (fs w)(resolve w dest \<mapsto> File data))) \<and>
         (r = Inr () \<longrightarrow> (\<exists>data. urlopen ev url = Inr (data, None) \<and>
                              fs w' = (fs w)(resolve w dest \<mapsto> File data)))"
  using assms
  by (auto simp: urlretrieve_def Let_def resolve_def
           split: sum.splits prod.splits option.splits dest!: write_file_Inr)

lemma download_file_effect:
  assumes "download_file ev w url dest = (r, w')"
  shows "cwd w' = cwd w \<and> requests w' = requests w @ [url] \<and>
         (fs w' = fs w \<or> (\<exists>data. fs w' = (fs w)(resolve w dest \<mapsto> File data))) \<and>
         (\<forall>e. r = Inl e \<longrightarrow> (\<exists>m. e = RuntimeError (''Failed to download '' @ m)))"
proof -
  let ?w1 = "print w (''Downloading '' @ url @ ''...'')"
  obtain r1 w1 where x: "urlretrieve ev ?w1 url dest = (r1, w1)"
    by (cases "urlretrieve ev ?w1 url dest")
  note e = urlretrieve_effect[OF x]
  show ?thesis using assms x e
    by (cases r1) (auto simp: download_file_def Let_def)
qed

lemma fetch_body_effect:
  assumes "fetch_body ev url filename expected output_dir temp_dir w = (r, w')"
  shows "cwd w' = cwd w \<and> requests w' = requests w @ [url] \<and>
         (\<forall>m. r = Inl (RuntimeError m) \<and> hd m \<noteq> CHR ''F'' \<longrightarrow>
            (\<exists>data. fs w' = (fs w)(resolve w (path_join (parse_path temp_dir) filename) \<mapsto> File data)) \<and>
            ((\<exists>actual. actual \<noteq> expected \<and> m = hash_mismatch_message expected actual) \<or>
             m = unsupported_message (path_join (parse_path temp_dir) filename)))"
proof -
  let ?tp = "path_join (parse_path temp_dir) filename"
  obtain r1 w1 where d: "download_file ev w url ?tp = (r1, w1)"
    by (cases "download_file ev w url ?tp")
  note de = download_file_effect[OF d]
  show ?thesis
  proof (cases r1)
    case (Inl e)
    then have "r = Inl e" "w' = w1" using assms d by (simp_all add: fetch_body_def Let_def)
    then show ?thesis using de Inl by auto
  next
    case (Inr u)
    have fsw1: "\<exists>data. fs w1 = (fs w)(resolve w ?tp \<mapsto> File data)"
    proof -
      let ?w0 = "print w (''Downloading '' @ url @ ''...'')"
      obtain r0 w0 where x: "urlretrieve ev ?w0 url ?tp = (r0, w0)"
        by (cases "urlretrieve ev ?w0 url ?tp")
      have "r0 = Inr ()" using d x Inr
        by (cases r0) (auto simp: download_file_def Let_def)
      then obtain data where "fs w0 = (fs ?w0)(resolve ?w0 ?tp \<mapsto> File data)"
        using urlretrieve_effect[OF x] by auto
      moreover have "fs w1 = fs w0" using d x \<open>r0 = Inr ()\<close>
        by (auto simp: download_file_def Let_def)
      ultimately show ?thesis by auto
    qed
    obtain r2 w2 where v: "verify_hash w1 ?tp expected = (r2, w2)"
      by (cases "verify_hash w1 ?tp expected")
    note ve = verify_hash_effect[OF v]
    show ?thesis
    proof (cases r2)
      case (Inl e)
      then have "r = Inl e" "w' = w2" using assms d v Inr by (simp_all add: fetch_body_def Let_def)
      then show ?thesis using de ve fsw1 Inl by auto
    next
      case (Inr u2)
      then have x: "extract_archive ev w2 ?tp output_dir = (r, w')"
        using assms d v \<open>r1 = Inr u\<close> by (simp add: fetch_body_def Let_def)
      note xe = extract_archive_effect[OF x]
      show ?thesis using de ve xe fsw1 by auto
    qed
  qed
qed

lemma rmtree_prefix: "prefix t q \<Longrightarrow> rmtree f t q = None"
  by (simp add: rmtree_def)

lemma rmtree_upd: "prefix t k \<Longrightarrow> rmtree (f(k := v)) t = rmtree f t"
  by (rule ext) (auto simp: rmtree_def)

lemma rmtree_fresh: "\<forall>q. prefix t q \<longrightarrow> f q = None \<Longrightarrow> rmtree f t = f"
  by (rule ext) (auto simp: rmtree_def)

lemma archive_filename_relative: "\<not> anchored (parse_path (archive_filename p v e))"
  by (simp add: parse_path_def archive_filename_def startswith_def)

lemma resolve_path_join:
  "\<not> anchored (parse_path s) \<Longrightarrow> resolve w (path_join p s) = resolve w p @ parts (parse_path s)"
  by (simp add: path_join_def Let_def resolve_def)

lemma resolve_cwd: "cwd w' = cwd w \<Longrightarrow> resolve w' p = resolve w p"
  by (simp add: resolve_def)

lemma temp_path_prefix:
  "prefix (resolve w (parse_path t))
          (resolve w (path_join (parse_path t) (archive_filename p v e)))"
  by (simp add: resolve_path_join archive_filename_relative)

lemma is_dir_stdout [simp]: "is_dir (w\<lparr>stdout := s\<rparr>) p = is_dir w p"
  by (simp add: is_dir_def resolve_def)

lemma mkdir_exist_ok_stdout:
  "mkdir_exist_ok (w\<lparr>stdout := s\<rparr>) p = map_sum id (\<lambda>w'. w'\<lparr>stdout := s\<rparr>) (mkdir_exist_ok w p)"
  by (simp add: mkdir_exist_ok_def resolve_def split: sum.splits)

lemma mkdir_parents_stdout:
  "mkdir_parents (w\<lparr>stdout := s\<rparr>) p = map_sum id (\<lambda>w'. w'\<lparr>stdout := s\<rparr>) (mkdir_parents w p)"
proof (induction w p rule: mkdir_parents.induct)
  case (1 w p)
  have r: "resolve (w\<lparr>stdout := s\<rparr>) p = resolve w p" by (simp add: resolve_def)
  show ?case
  proof (cases "os_mkdir (fs w) (resolve w p) (path_str p)")
    case (Inr f)
    then show ?thesis
      by (subst mkdir_parents.simps, subst (2) mkdir_parents.simps) (simp add: r)
  next
    case (Inl e)
    show ?thesis
    proof (cases "(\<exists>n. e = FileNotFoundError n) \<and> parts p \<noteq> []")
      case False
      then show ?thesis using Inl
        by (subst mkdir_parents.simps, subst (2) mkdir_parents.simps)
           (cases e; auto simp: r)
    next
      case True
      then obtain n where n: "e = FileNotFoundError n" and pne: "parts p \<noteq> []" by blast
      have IH: "mkdir_parents (w\<lparr>stdout := s\<rparr>) (path_parent p) =
                map_sum id (\<lambda>w'. w'\<lparr>stdout := s\<rparr>) (mkdir_parents w (path_parent p))"
        using "1.IH"[OF Inl n pne] .
      show ?thesis
      proof (cases "mkdir_parents w (path_parent p)")
        case (Inl e1)
        then show ?thesis using \<open>os_mkdir _ _ _ = Inl e\<close> n pne IH
          by (subst mkdir_parents.simps, subst (2) mkdir_parents.simps) (simp add: r)
      next
        case (Inr w1)
        then show ?thesis using \<open>os_mkdir _ _ _ = Inl e\<close> n pne IH
          by (subst mkdir_parents.simps, subst (2) mkdir_parents.simps)
             (simp add: r mkdir_exist_ok_stdout)
      qed
    qed
  qed
qed

lemma mkdir_parents_print:
  "mkdir_parents (print w s) p = map_sum id (\<lambda>w'. print w' s) (mkdir_parents w p)"
proof (cases "mkdir_parents w p")
  case (Inl e)
  then show ?thesis by (simp add: print_def mkdir_parents_stdout)
next
  case (Inr w')
  then have "stdout w' = stdout w" using mkdir_parents_made by fastforce
  then show ?thesis using Inr by (simp add: print_def mkdir_parents_stdout)
qed

lemma read_after_write:
  assumes "write_file f k name data = Inr f'"
  shows "read_file f' k name = Inr data"
proof -
  from write_file_Inr[OF assms] have f': "f' = f(k \<mapsto> File data)"
    and wk: "walk f k name = None" and k: "k \<noteq> []" by simp_all
  have "walk f' k name = None"
    using wk unfolding walk_None f' by (auto simp: strict_prefix_def)
  then show ?thesis using f' k by (simp add: read_file_def node_at_def)
qed

lemma verify_hash_mismatch:
  assumes "read_file (fs w) (resolve w p) (path_str p) = Inr data"
    and "hex_of_state (sha256 data) \<noteq> expected"
  shows "verify_hash w p expected =
     (Inl (RuntimeError (hash_mismatch_message expected (hex_of_state (sha256 data)))),
      print w ''Verifying SHA256 hash...'')"
  using assms
  by (simp add: verify_hash_def Let_def calculate_file_hash_def hash_chunks_concat
        concat_read_chunks hash_mismatch_message_def)

lemma verify_hash_match:
  assumes "read_file (fs w) (resolve w p) (path_str p) = Inr data"
  shows "verify_hash w p (hex_of_state (sha256 data)) =
     (Inr (), print (print w ''Verifying SHA256 hash...'') ''Hash verification passed'')"
  using assms
  by (simp add: verify_hash_def Let_def calculate_file_hash_def hash_chunks_concat
        concat_read_chunks)

lemma resolve_updates [simp]:
  "resolve (w\<lparr>stdout := s\<rparr>) p = resolve w p"
  "resolve (w\<lparr>requests := r\<rparr>) p = resolve w p"
  by (simp_all add: resolve_def)

lemma download_file_ok:
  assumes "urlopen ev url = Inr (data, None)"
    and "write_file (fs w) (resolve w dest) (path_str dest) data = Inr f'"
  shows "download_file ev w url dest =
     (Inr (), w\<lparr>fs := f', stdout := stdout w @ [''Downloading '' @ url @ ''...'',
                                                 ''Downloaded to '' @ path_str dest],
                requests := requests w @ [url]\<rparr>)"
  using assms
  by (simp add: download_file_def urlretrieve_def Let_def print_def)

lemma extract_archive_unsupported:
  assumes "\<not> endswith (path_name archive_path) ''.zip''"
    and "\<not> endswith (path_name archive_path) ''.tar.gz''"
  shows "extract_archive ev w archive_path extract_to =
     (Inl (RuntimeError (''Unsupported archive format: '' @ path_str archive_path)),
      print w (''Extracting '' @ path_str archive_path @ '' to '' @ path_str extract_to @ ''...''))"
proof -
  have "suffix (path_suffix archive_path) (path_name archive_path)"
    by (auto simp: path_suffix_def Let_def suffix_drop split: option.splits)
  then have "path_suffix archive_path \<noteq> ''.zip''"
    using assms(1) by (auto simp: endswith_def)
  then show ?thesis using assms(2)
    by (simp add: extract_archive_def Let_def)
qed

section \<open>The whole download\<close>

lemma table_lookup_Some:
  "table_lookup config (v, p) = Some x \<longleftrightarrow> (\<exists>pl. config v = Some pl \<and> pl p = Some x)"
  by (auto simp: table_lookup_def split: option.splits)

lemma table_lookup_None:
  "table_lookup config (v, p) = None \<longleftrightarrow>
     config v = None \<or> (\<exists>pl. config v = Some pl \<and> pl p = None)"
  by (auto simp: table_lookup_def split: option.splits)

lemma with_temporary_directory_cases:
  assumes "with_temporary_directory ev w body = (r, w')"
  shows "(\<exists>e. os_mkdir (fs w) (temp_key ev w) (tempdir ev) = Inl e \<and> r = Inl e \<and> w' = w) \<or>
         (\<exists>f w''. os_mkdir (fs w) (temp_key ev w) (tempdir ev) = Inr f \<and>
                   body (tempdir ev) (w\<lparr>fs := f\<rparr>) = (r, w'') \<and>
                   w' = w''\<lparr>fs := rmtree (fs w'') (temp_key ev w)\<rparr>)"
  using assms
  by (auto simp: with_temporary_directory_def temp_key_def Let_def split: sum.splits prod.splits)

lemma download_aic_sdk_found:
  assumes "load_platform_config w versions_file = Inr config"
    and "table_lookup config (version, platform_triplet) = Some (archive_ext, expected_hash)"
  shows "download_aic_sdk ev w version output_dir platform_triplet versions_file =
     (case mkdir_parents
             (print (print w (''Platform: '' @ platform_triplet))
                (''Download URL: '' @ request_url version platform_triplet archive_ext))
             output_dir of
        Inl e \<Rightarrow>
          (Inl e, print (print w (''Platform: '' @ platform_triplet))
                    (''Download URL: '' @ request_url version platform_triplet archive_ext))
      | Inr w3 \<Rightarrow>
          (case with_temporary_directory ev w3
                  (fetch_body ev (request_url version platform_triplet archive_ext)
                     (archive_filename platform_triplet version archive_ext)
                     expected_hash output_dir) of
             (Inl e, w4) \<Rightarrow> (Inl e, w4)
           | (Inr u, w4) \<Rightarrow>
               (Inr (), print w4 (''AIC SDK '' @ version @
                  '' successfully downloaded and extracted to '' @ path_str output_dir))))"
proof -
  from assms(2) obtain pl where "config version = Some pl"
    "pl platform_triplet = Some (archive_ext, expected_hash)"
    by (auto simp: table_lookup_Some)
  then show ?thesis using assms(1)
    by (auto simp: download_aic_sdk_def Let_def request_url_def split: sum.splits prod.splits)
qed

lemma download_aic_sdk_not_found:
  assumes "load_platform_config w versions_file = Inr config"
    and "table_lookup config (version, platform_triplet) = None"
  shows "download_aic_sdk ev w version output_dir platform_triplet versions_file =
     (Inl (RuntimeError
        (if config version = None
         then ''Version '' @ version @ '' not found in '' @ path_str versions_file
         else ''Platform '' @ platform_triplet @ '' not supported for version '' @ version)),
      print w (''Platform: '' @ platform_triplet))"
  using assms
  by (auto simp: download_aic_sdk_def Let_def table_lookup_None)

lemma download_aic_sdk_trace:
  assumes "download_aic_sdk ev w version output_dir platform_triplet versions_file = (r, w')"
  shows "(fs w' = fs w \<and> requests w' = requests w \<and> r \<noteq> Inr () \<and>
          (\<forall>m. r = Inl (RuntimeError m) \<longrightarrow>
             hd m = CHR ''V'' \<or> hd m = CHR ''E'' \<or> hd m = CHR ''P'')) \<or>
         (\<exists>config archive_ext expected_hash w3 w4.
            load_platform_config w versions_file = Inr config \<and>
            table_lookup config (version, platform_triplet) = Some (archive_ext, expected_hash) \<and>
            fs w3 = made_dirs (fs w) (resolve w output_dir) \<and> cwd w3 = cwd w \<and>
            requests w3 = requests w \<and>
            with_temporary_directory ev w3
              (fetch_body ev (request_url version platform_triplet archive_ext)
                 (archive_filename platform_triplet version archive_ext)
                 expected_hash output_dir) = (r, w4) \<and>
            fs w' = fs w4 \<and> requests w' = requests w4)"
proof (cases "load_platform_config w versions_file")
  case (Inl e)
  then have "r = Inl e" "w' = print w (''Platform: '' @ platform_triplet)"
    using assms by (simp_all add: download_aic_sdk_def Let_def)
  then show ?thesis using load_platform_config_error Inl by auto
next
  case (Inr config)
  show ?thesis
  proof (cases "table_lookup config (version, platform_triplet)")
    case None
    have "r = Inl (RuntimeError
        (if config version = None
         then ''Version '' @ version @ '' not found in '' @ path_str versions_file
         else ''Platform '' @ platform_triplet @ '' not supported for version '' @ version))"
      and w': "w' = print w (''Platform: '' @ platform_triplet)"
      using assms unfolding download_aic_sdk_not_found[OF Inr None] by simp_all
    then have "r \<noteq> Inr () \<and>
          (\<forall>m. r = Inl (RuntimeError m) \<longrightarrow>
             hd m = CHR ''V'' \<or> hd m = CHR ''E'' \<or> hd m = CHR ''P'')"
      by (cases "config version = None") simp_all
    then show ?thesis using w' by simp
  next
    case (Some x)
    obtain archive_ext expected_hash where x: "x = (archive_ext, expected_hash)" by (cases x)
    let ?w2 = "print (print w (''Platform: '' @ platform_triplet))
                 (''Download URL: '' @ request_url version platform_triplet archive_ext)"
    note found = download_aic_sdk_found[OF Inr Some[unfolded x], of ev output_dir]
    show ?thesis
    proof (cases "mkdir_parents ?w2 output_dir")
      case (Inl e)
      then have "r = Inl e" "w' = ?w2" using assms found by simp_all
      then show ?thesis using mkdir_parents_error[OF Inl] by auto
    next
      case (Inr w3)
      have w3: "w3 = ?w2\<lparr>fs := made_dirs (fs ?w2) (resolve ?w2 output_dir)\<rparr>"
        using Inr by (rule mkdir_parents_made)
      obtain r4 w4 where t: "with_temporary_directory ev w3
              (fetch_body ev (request_url version platform_triplet archive_ext)
                 (archive_filename platform_triplet version archive_ext)
                 expected_hash output_dir) = (r4, w4)"
        by (cases "with_temporary_directory ev w3
              (fetch_body ev (request_url version platform_triplet archive_ext)
                 (archive_filename platform_triplet version archive_ext)
                 expected_hash output_dir)")
      have "r = r4 \<and> fs w' = fs w4 \<and> requests w' = requests w4"
        using assms found Inr t by (cases r4) auto
      moreover have "fs w3 = made_dirs (fs w) (resolve w output_dir) \<and> cwd w3 = cwd w \<and>
                     requests w3 = requests w"
        by (subst w3, subst w3, subst w3) simp
      ultimately show ?thesis
        using \<open>load_platform_config w versions_file = Inr config\<close> Some x t by blast
    qed
  qed
qed

lemma temp_key_cwd: "cwd w' = cwd w \<Longrightarrow> temp_key ev w' = temp_key ev w"
  by (simp add: temp_key_def resolve_def)

lemma fresh_after_mkdir:
  assumes "\<forall>q. prefix t q \<longrightarrow> f q = None" and "\<not> prefix t k"
  shows "\<forall>q. prefix t q \<longrightarrow> made_dirs f k q = None"
proof (intro allI impI)
  fix q assume q: "prefix t q"
  then have "\<not> prefix q k" using assms(2) by (meson prefix_order.order_trans)
  then show "made_dirs f k q = None" using assms(1) q by (simp add: made_dirs_def)
qed

lemma startswith_hd: "startswith m (c # cs) \<Longrightarrow> hd m = c"
  by (auto simp: startswith_def prefix_def)

text \<open>
  Claim C8. Provided the name chosen for the temporary directory is unused when
  \<open>download_aic_sdk\<close> starts and does not lie above the output directory, no entry at or
  below that name exists when \<open>download_aic_sdk\<close> has returned or raised, whatever the
  outcome.
\<close>

theorem temporary_directory_removed:
  assumes "\<forall>q. prefix (temp_key ev w) q \<longrightarrow> fs w q = None"
    and "\<not> prefix (temp_key ev w) (resolve w output_dir)"
  shows "\<forall>q. prefix (temp_key ev w) q \<longrightarrow>
           fs (snd (download_aic_sdk ev w version output_dir platform_triplet versions_file)) q = None"
proof -
  obtain r w' where run: "download_aic_sdk ev w version output_dir platform_triplet versions_file = (r, w')"
    by (cases "download_aic_sdk ev w version output_dir platform_triplet versions_file")
  have "\<forall>q. prefix (temp_key ev w) q \<longrightarrow> fs w' q = None"
    using download_aic_sdk_trace[OF run]
  proof
    assume "fs w' = fs w \<and> requests w' = requests w \<and> r \<noteq> Inr () \<and>
          (\<forall>m. r = Inl (RuntimeError m) \<longrightarrow>
             hd m = CHR ''V'' \<or> hd m = CHR ''E'' \<or> hd m = CHR ''P'')"
    then show ?thesis using assms(1) by simp
  next
    assume "\<exists>config archive_ext expected_hash w3 w4.
            load_platform_config w versions_file = Inr config \<and>
            table_lookup config (version, platform_triplet) = Some (archive_ext, expected_hash) \<and>
            fs w3 = made_dirs (fs w) (resolve w output_dir) \<and> cwd w3 = cwd w \<and>
            requests w3 = requests w \<and>
            with_temporary_directory ev w3
              (fetch_body ev (request_url version platform_triplet archive_ext)
                 (archive_filename platform_triplet version archive_ext)
                 expected_hash output_dir) = (r, w4) \<and>
            fs w' = fs w4 \<and> requests w' = requests w4"
    then obtain archive_ext expected_hash w3 w4 where
      w3: "fs w3 = made_dirs (fs w) (resolve w output_dir)" "cwd w3 = cwd w"
      and t: "with_temporary_directory ev w3
              (fetch_body ev (request_url version platform_triplet archive_ext)
                 (archive_filename platform_triplet version archive_ext)
                 expected_hash output_dir) = (r, w4)"
      and w4: "fs w' = fs w4"
      by blast
    have tk: "temp_key ev w3 = temp_key ev w" using w3(2) by (rule temp_key_cwd)
    have fresh3: "\<forall>q. prefix (temp_key ev w) q \<longrightarrow> fs w3 q = None"
      unfolding w3(1) using assms by (rule fresh_after_mkdir)
    from with_temporary_directory_cases[OF t] show ?thesis
    proof
      assume "\<exists>e. os_mkdir (fs w3) (temp_key ev w3) (tempdir ev) = Inl e \<and> r = Inl e \<and> w4 = w3"
      then show ?thesis using fresh3 w4 by auto
    next
      assume "\<exists>f w''. os_mkdir (fs w3) (temp_key ev w3) (tempdir ev) = Inr f \<and>
                fetch_body ev (request_url version platform_triplet archive_ext)
                 (archive_filename platform_triplet version archive_ext)
                 expected_hash output_dir (tempdir ev) (w3\<lparr>fs := f\<rparr>) = (r, w'') \<and>
                w4 = w''\<lparr>fs := rmtree (fs w'') (temp_key ev w3)\<rparr>"
      then show ?thesis using w4 tk by (auto simp: rmtree_prefix)
    qed
  qed
  then show ?thesis using run by simp
qed

text \<open>
  Claim C3, as the code has it. When \<open>download_aic_sdk\<close> fails with the
  hash-verification error or the unsupported-format error (and the temporary name was
  unused and not above the output directory), the file system afterwards is the one
  before the call with the output directory and the missing directories above it
  created: nothing is extracted and nothing else is changed, but the output directory does
  exist.
\<close>

theorem failed_fetch_output_dir:
  assumes "download_aic_sdk ev w version output_dir platform_triplet versions_file =
             (Inl (RuntimeError m), w')"
    and "startswith m ''Hash verification failed!'' \<or> startswith m ''Unsupported archive format: ''"
    and "\<forall>q. prefix (temp_key ev w) q \<longrightarrow> fs w q = None"
    and "\<not> prefix (temp_key ev w) (resolve w output_dir)"
  shows "fs w' = made_dirs (fs w) (resolve w output_dir)"
proof -
  have hd: "hd m = CHR ''H'' \<or> hd m = CHR ''U''"
    using assms(2) startswith_hd by fastforce
  from download_aic_sdk_trace[OF assms(1)] hd
  obtain archive_ext expected_hash w3 w4 where
    w3: "fs w3 = made_dirs (fs w) (resolve w output_dir)" "cwd w3 = cwd w"
    and t: "with_temporary_directory ev w3
              (fetch_body ev (request_url version platform_triplet archive_ext)
                 (archive_filename platform_triplet version archive_ext)
                 expected_hash output_dir) = (Inl (RuntimeError m), w4)"
    and w4: "fs w' = fs w4"
    by auto
  let ?tk = "temp_key ev w"
  have tk: "temp_key ev w3 = ?tk" using w3(2) by (rule temp_key_cwd)
  have fresh3: "\<forall>q. prefix ?tk q \<longrightarrow> fs w3 q = None"
    unfolding w3(1) using assms(3,4) by (rule fresh_after_mkdir)
  from with_temporary_directory_cases[OF t] obtain f w'' where
    mk: "os_mkdir (fs w3) (temp_key ev w3) (tempdir ev) = Inr f"
    and body: "fetch_body ev (request_url version platform_triplet archive_ext)
                 (archive_filename platform_triplet version archive_ext)
                 expected_hash output_dir (tempdir ev) (w3\<lparr>fs := f\<rparr>) = (Inl (RuntimeError m), w'')"
    and w4_eq: "w4 = w''\<lparr>fs := rmtree (fs w'') (temp_key ev w3)\<rparr>"
    using os_mkdir_Inl by fastforce
  have f: "f = (fs w3)(?tk \<mapsto> Dir)" using os_mkdir_Inr[OF mk] tk by simp
  have "hd m \<noteq> CHR ''F''" using hd by auto
  then obtain data where
    w'': "fs w'' = f(resolve w3 (path_join (parse_path (tempdir ev))
                        (archive_filename platform_triplet version archive_ext)) \<mapsto> File data)"
    using fetch_body_effect[OF body] by auto
  have pre: "prefix ?tk (resolve w3 (path_join (parse_path (tempdir ev))
                        (archive_filename platform_triplet version archive_ext)))"
    using temp_path_prefix[of w3 "tempdir ev"] tk by (simp add: temp_key_def)
  have "fs w4 = rmtree (fs w'') ?tk" using w4_eq tk by simp
  also have "\<dots> = rmtree f ?tk" unfolding w'' using pre by (rule rmtree_upd)
  also have "\<dots> = rmtree (fs w3) ?tk" unfolding f by (rule rmtree_upd) simp
  also have "\<dots> = fs w3" using fresh3 by (rule rmtree_fresh)
  finally show ?thesis using w4 w3(1) by simp
qed

text \<open>
  Claim C2, as the code has it. \<open>download_aic_sdk\<close> requests nothing from the network,
  or exactly one URL:
  \<open>https://github.com/ai-coustics/aic-sdk-c/releases/download/<version>/aic-sdk-<platform>-<version>.<ext>\<close>,
  with the extension the table records for the pair. The file name starts with the fixed
  text \<open>aic-sdk-\<close>, not with the repository name \<open>aic-sdk-c\<close>.
\<close>

theorem requested_url:
  "requests (snd (download_aic_sdk ev w version output_dir platform_triplet versions_file)) =
     requests w \<or>
   (\<exists>config archive_ext expected_hash.
      load_platform_config w versions_file = Inr config \<and>
      table_lookup config (version, platform_triplet) = Some (archive_ext, expected_hash) \<and>
      requests (snd (download_aic_sdk ev w version output_dir platform_triplet versions_file)) =
        requests w @
        [''https://github.com/ai-coustics/aic-sdk-c/releases/download/'' @ version @
         ''/aic-sdk-'' @ platform_triplet @ ''-'' @ version @ ''.'' @ archive_ext])"
proof -
  obtain r w' where run: "download_aic_sdk ev w version output_dir platform_triplet versions_file = (r, w')"
    by (cases "download_aic_sdk ev w version output_dir platform_triplet versions_file")
  from download_aic_sdk_trace[OF run] show ?thesis
  proof
    assume "fs w' = fs w \<and> requests w' = requests w \<and> r \<noteq> Inr () \<and>
          (\<forall>m. r = Inl (RuntimeError m) \<longrightarrow>
             hd m = CHR ''V'' \<or> hd m = CHR ''E'' \<or> hd m = CHR ''P'')"
    then show ?thesis using run by simp
  next
    assume "\<exists>config archive_ext expected_hash w3 w4.
            load_platform_config w versions_file = Inr config \<and>
            table_lookup config (version, platform_triplet) = Some (archive_ext, expected_hash) \<and>
            fs w3 = made_dirs (fs w) (resolve w output_dir) \<and> cwd w3 = cwd w \<and>
            requests w3 = requests w \<and>
            with_temporary_directory ev w3
              (fetch_body ev (request_url version platform_triplet archive_ext)
                 (archive_filename platform_triplet version archive_ext)
                 expected_hash output_dir) = (r, w4) \<and>
            fs w' = fs w4 \<and> requests w' = requests w4"
    then obtain config archive_ext expected_hash w3 w4 where
      c: "load_platform_config w versions_file = Inr config"
         "table_lookup config (version, platform_triplet) = Some (archive_ext, expected_hash)"
      and w3: "requests w3 = requests w"
      and t: "with_temporary_directory ev w3
              (fetch_body ev (request_url version platform_triplet archive_ext)
                 (archive_filename platform_triplet version archive_ext)
                 expected_hash output_dir) = (r, w4)"
      and w4: "requests w' = requests w4"
      by blast
    from with_temporary_directory_cases[OF t]
    have "requests w4 = requests w \<or>
          requests w4 = requests w @ [request_url version platform_triplet archive_ext]"
      using w3 by (auto dest!: fetch_body_effect)
    then show ?thesis using c w4 run
      by (auto simp: request_url_def download_url_def archive_filename_def)
  qed
qed

text \<open>
  The claim as the specification words it fails: for version \<open>0.7.0\<close> on
  \<open>x86_64-unknown-linux-gnu\<close> the URL is not the instance of the template with the
  repository \<open>aic-sdk-c\<close>, and its file name does not begin with the repository segment.
\<close>

theorem url_template_counterexample:
  "download_url ''0.7.0'' (archive_filename ''x86_64-unknown-linux-gnu'' ''0.7.0'' ''tar.gz'') \<noteq>
     spec_url ''github.com'' ''ai-coustics'' ''aic-sdk-c'' ''0.7.0'' ''x86_64-unknown-linux-gnu'' ''tar.gz'' \<and>
   repo_segment (download_url ''0.7.0''
      (archive_filename ''x86_64-unknown-linux-gnu'' ''0.7.0'' ''tar.gz'')) = ''aic-sdk-c'' \<and>
   file_segment (download_url ''0.7.0''
      (archive_filename ''x86_64-unknown-linux-gnu'' ''0.7.0'' ''tar.gz'')) =
     ''aic-sdk-x86_64-unknown-linux-gnu-0.7.0.tar.gz'' \<and>
   \<not> prefix ''aic-sdk-c'' ''aic-sdk-x86_64-unknown-linux-gnu-0.7.0.tar.gz''"
  by code_simp

lemma fetch_hash_mismatch:
  assumes "load_platform_config w versions_file = Inr config"
    and "table_lookup config (version, platform_triplet) = Some (archive_ext, expected_hash)"
    and "mkdir_parents w output_dir = Inr w3"
    and "os_mkdir (fs w3) (temp_key ev w) (tempdir ev) = Inr f4"
    and "urlopen ev (request_url version platform_triplet archive_ext) = Inr (data, None)"
    and "write_file f4
           (resolve w (temp_path ev (archive_filename platform_triplet version archive_ext)))
           (path_str (temp_path ev (archive_filename platform_triplet version archive_ext)))
           data = Inr f5"
    and "hex_of_state (sha256 data) \<noteq> expected_hash"
  shows "download_aic_sdk ev w version output_dir platform_triplet versions_file =
     (Inl (RuntimeError (hash_mismatch_message expected_hash (hex_of_state (sha256 data)))),
      w\<lparr>fs := rmtree (fs w3) (temp_key ev w),
        stdout := stdout w @
          [''Platform: '' @ platform_triplet,
           ''Download URL: '' @ request_url version platform_triplet archive_ext,
           ''Downloading '' @ request_url version platform_triplet archive_ext @ ''...'',
           ''Downloaded to '' @
             path_str (temp_path ev (archive_filename platform_triplet version archive_ext)),
           ''Verifying SHA256 hash...''],
        requests := requests w @ [request_url version platform_triplet archive_ext]\<rparr>)"
proof -
  let ?url = "request_url version platform_triplet archive_ext"
  let ?filename = "archive_filename platform_triplet version archive_ext"
  let ?tp = "temp_path ev ?filename"
  let ?tk = "temp_key ev w"
  let ?P = "''Platform: '' @ platform_triplet"
  let ?U = "''Download URL: '' @ ?url"
  have w3: "w3 = w\<lparr>fs := made_dirs (fs w) (resolve w output_dir)\<rparr>"
    using assms(3) by (rule mkdir_parents_made)
  let ?w3 = "print (print w3 ?P) ?U"
  have mk: "mkdir_parents (print (print w ?P) ?U) output_dir = Inr ?w3"
    using assms(3) by (simp add: mkdir_parents_print)
  have tk3: "resolve w3 (parse_path (tempdir ev)) = ?tk"
    by (simp add: temp_key_def w3)
  let ?w4 = "?w3\<lparr>fs := f4\<rparr>"
  have r3: "\<And>p. resolve w3 p = resolve w p" by (simp add: w3)
  have "download_file ev ?w4 ?url ?tp =
     (Inr (), ?w4\<lparr>fs := f5, stdout := stdout ?w4 @ [''Downloading '' @ ?url @ ''...'',
                                                     ''Downloaded to '' @ path_str ?tp],
                   requests := requests ?w4 @ [?url]\<rparr>)"
    using assms(5) by (rule download_file_ok) (simp add: r3 assms(6))
  then obtain w5 where dl: "download_file ev ?w4 ?url ?tp = (Inr (), w5)"
    and w5: "w5 = ?w4\<lparr>fs := f5, stdout := stdout ?w4 @ [''Downloading '' @ ?url @ ''...'',
                                                     ''Downloaded to '' @ path_str ?tp],
                   requests := requests ?w4 @ [?url]\<rparr>"
    by simp
  have r5: "resolve w5 ?tp = resolve w ?tp" by (simp add: w5 r3)
  have rd: "read_file (fs w5) (resolve w5 ?tp) (path_str ?tp) = Inr data"
    using read_after_write[OF assms(6)] by (simp add: w5 r3)
  have vh: "verify_hash w5 ?tp expected_hash =
     (Inl (RuntimeError (hash_mismatch_message expected_hash (hex_of_state (sha256 data)))),
      print w5 ''Verifying SHA256 hash...'')"
    using rd assms(7) by (rule verify_hash_mismatch)
  have body: "fetch_body ev ?url ?filename expected_hash output_dir (tempdir ev) ?w4 =
     (Inl (RuntimeError (hash_mismatch_message expected_hash (hex_of_state (sha256 data)))),
      print w5 ''Verifying SHA256 hash...'')"
    using dl vh by (simp add: fetch_body_def Let_def temp_path_def)
  have f4: "f4 = (fs w3)(?tk \<mapsto> Dir)" using os_mkdir_Inr[OF assms(4)] by simp
  have f5: "f5 = f4(resolve w ?tp \<mapsto> File data)" using write_file_Inr[OF assms(6)] by simp
  have pre: "prefix ?tk (resolve w ?tp)"
    using temp_path_prefix[of w "tempdir ev"] by (simp add: temp_key_def temp_path_def)
  have "rmtree f5 ?tk = rmtree f4 ?tk" unfolding f5 using pre by (rule rmtree_upd)
  also have "\<dots> = rmtree (fs w3) ?tk" unfolding f4 by (rule rmtree_upd) simp
  finally have rm: "rmtree f5 ?tk = rmtree (fs w3) ?tk" .
  have tmp: "with_temporary_directory ev ?w3
               (fetch_body ev ?url ?filename expected_hash output_dir) =
     (Inl (RuntimeError (hash_mismatch_message expected_hash (hex_of_state (sha256 data)))),
      (print w5 ''Verifying SHA256 hash...'')\<lparr>fs := rmtree (fs w3) ?tk\<rparr>)"
  proof -
    have fs5: "fs (print w5 ''Verifying SHA256 hash...'') = f5" by (simp add: w5)
    have "with_temporary_directory ev ?w3
               (fetch_body ev ?url ?filename expected_hash output_dir) =
          (case fetch_body ev ?url ?filename expected_hash output_dir (tempdir ev) ?w4 of
             (r, w') \<Rightarrow> (r, w'\<lparr>fs := rmtree (fs w') ?tk\<rparr>))"
      using assms(4) by (simp add: with_temporary_directory_def Let_def tk3)
    also have "\<dots> =
       (Inl (RuntimeError (hash_mismatch_message expected_hash (hex_of_state (sha256 data)))),
        (print w5 ''Verifying SHA256 hash...'')\<lparr>fs := rmtree f5 ?tk\<rparr>)"
      unfolding body by (simp only: prod.case fs5)
    finally show ?thesis by (simp only: rm)
  qed
  have "download_aic_sdk ev w version output_dir platform_triplet versions_file =
     (Inl (RuntimeError (hash_mismatch_message expected_hash (hex_of_state (sha256 data)))),
      (print w5 ''Verifying SHA256 hash...'')\<lparr>fs := rmtree (fs w3) ?tk\<rparr>)"
    by (simp only: download_aic_sdk_found[OF assms(1,2)] mk sum.case tmp prod.case)
  moreover have "(print w5 ''Verifying SHA256 hash...'')\<lparr>fs := rmtree (fs w3) ?tk\<rparr> =
      w\<lparr>fs := rmtree (fs w3) ?tk,
        stdout := stdout w @ [?P, ?U, ''Downloading '' @ ?url @ ''...'',
                              ''Downloaded to '' @ path_str ?tp, ''Verifying SHA256 hash...''],
        requests := requests w @ [?url]\<rparr>"
    by (simp add: w5 print_def) (simp add: w3)
  ultimately show ?thesis by simp
qed

text \<open>
  Claim C1. When the table holds (extension, expected hash) for the requested pair, the
  output directory and the temporary directory could be made and the archive was
  downloaded completely, and the SHA-256 of the downloaded bytes differs from the expected
  hash, \<open>download_aic_sdk\<close> raises the error
  \<open>Hash verification failed!\<close> with the expected and the actual hash; the last line printed
  is \<open>Verifying SHA256 hash...\<close>, the file system is what making the output directory left
  of it without the temporary directory, and the outcome is the same whatever the archive
  readers would do: extraction is not run.
\<close>

theorem hash_mismatch_raises:
  assumes "load_platform_config w versions_file = Inr config"
    and "table_lookup config (version, platform_triplet) = Some (archive_ext, expected_hash)"
    and "mkdir_parents w output_dir = Inr w3"
    and "os_mkdir (fs w3) (temp_key ev w) (tempdir ev) = Inr f4"
    and "urlopen ev (request_url version platform_triplet archive_ext) = Inr (data, None)"
    and "write_file f4
           (resolve w (temp_path ev (archive_filename platform_triplet version archive_ext)))
           (path_str (temp_path ev (archive_filename platform_triplet version archive_ext)))
           data = Inr f5"
    and "hex_of_state (sha256 data) \<noteq> expected_hash"
  shows "download_aic_sdk ev w version output_dir platform_triplet versions_file =
     (Inl (RuntimeError
        (''Hash verification failed!'' @ [LF] @
         ''Expected: '' @ expected_hash @ [LF] @
         ''Actual:   '' @ hex_of_state (sha256 data))),
      w\<lparr>fs := rmtree (fs w3) (temp_key ev w),
        stdout := stdout w @
          [''Platform: '' @ platform_triplet,
           ''Download URL: '' @ request_url version platform_triplet archive_ext,
           ''Downloading '' @ request_url version platform_triplet archive_ext @ ''...'',
           ''Downloaded to '' @
             path_str (temp_path ev (archive_filename platform_triplet version archive_ext)),
           ''Verifying SHA256 hash...''],
        requests := requests w @ [request_url version platform_triplet archive_ext]\<rparr>) \<and>
     (\<forall>z t. download_aic_sdk (ev\<lparr>zip_members := z, tar_members := t\<rparr>) w version output_dir
               platform_triplet versions_file =
            download_aic_sdk ev w version output_dir platform_triplet versions_file)"
proof -
  note run = fetch_hash_mismatch[OF assms]
  have "\<And>z t. download_aic_sdk (ev\<lparr>zip_members := z, tar_members := t\<rparr>) w version output_dir
               platform_triplet versions_file =
            download_aic_sdk ev w version output_dir platform_triplet versions_file"
  proof -
    fix z t
    let ?ev = "ev\<lparr>zip_members := z, tar_members := t\<rparr>"
    have k: "temp_key ?ev w = temp_key ev w" "tempdir ?ev = tempdir ev"
      "\<And>n. temp_path ?ev n = temp_path ev n" "urlopen ?ev = urlopen ev"
      by (simp_all add: temp_key_def temp_path_def)
    have "download_aic_sdk ?ev w version output_dir platform_triplet versions_file =
     (Inl (RuntimeError (hash_mismatch_message expected_hash (hex_of_state (sha256 data)))),
      w\<lparr>fs := rmtree (fs w3) (temp_key ?ev w),
        stdout := stdout w @
          [''Platform: '' @ platform_triplet,
           ''Download URL: '' @ request_url version platform_triplet archive_ext,
           ''Downloading '' @ request_url version platform_triplet archive_ext @ ''...'',
           ''Downloaded to '' @
             path_str (temp_path ?ev (archive_filename platform_triplet version archive_ext)),
           ''Verifying SHA256 hash...''],
        requests := requests w @ [request_url version platform_triplet archive_ext]\<rparr>)"
    proof -
      have a4: "os_mkdir (fs w3) (temp_key ?ev w) (tempdir ?ev) = Inr f4"
        using assms(4) by (simp only: k)
      have a5: "urlopen ?ev (request_url version platform_triplet archive_ext) = Inr (data, None)"
        using assms(5) by (simp only: k)
      have a6: "write_file f4
           (resolve w (temp_path ?ev (archive_filename platform_triplet version archive_ext)))
           (path_str (temp_path ?ev (archive_filename platform_triplet version archive_ext)))
           data = Inr f5"
        using assms(6) by (simp only: k)
      show ?thesis by (rule fetch_hash_mismatch[OF assms(1,2,3) a4 a5 a6 assms(7)])
    qed
    then show "download_aic_sdk ?ev w version output_dir platform_triplet versions_file =
            download_aic_sdk ev w version output_dir platform_triplet versions_file"
      unfolding run by (simp only: k)
  qed
  then show ?thesis using run by (simp add: hash_mismatch_message_def)
qed

lemma fetch_unsupported:
  assumes "load_platform_config w versions_file = Inr config"
    and "table_lookup config (version, platform_triplet) = Some (archive_ext, expected_hash)"
    and "mkdir_parents w output_dir = Inr w3"
    and "os_mkdir (fs w3) (temp_key ev w) (tempdir ev) = Inr f4"
    and "urlopen ev (request_url version platform_triplet archive_ext) = Inr (data, None)"
    and "write_file f4
           (resolve w (temp_path ev (archive_filename platform_triplet version archive_ext)))
           (path_str (temp_path ev (archive_filename platform_triplet version archive_ext)))
           data = Inr f5"
    and "hex_of_state (sha256 data) = expected_hash"
    and "\<not> endswith (path_name (temp_path ev (archive_filename platform_triplet version archive_ext))) ''.zip''"
    and "\<not> endswith (path_name (temp_path ev (archive_filename platform_triplet version archive_ext))) ''.tar.gz''"
  shows "download_aic_sdk ev w version output_dir platform_triplet versions_file =
     (Inl (RuntimeError (unsupported_message
        (temp_path ev (archive_filename platform_triplet version archive_ext)))),
      w\<lparr>fs := rmtree (fs w3) (temp_key ev w),
        stdout := stdout w @
          [''Platform: '' @ platform_triplet,
           ''Download URL: '' @ request_url version platform_triplet archive_ext,
           ''Downloading '' @ request_url version platform_triplet archive_ext @ ''...'',
           ''Downloaded to '' @
             path_str (temp_path ev (archive_filename platform_triplet version archive_ext)),
           ''Verifying SHA256 hash...'',
           ''Hash verification passed'',
           ''Extracting '' @
             path_str (temp_path ev (archive_filename platform_triplet version archive_ext)) @
             '' to '' @ path_str output_dir @ ''...''],
        requests := requests w @ [request_url version platform_triplet archive_ext]\<rparr>)"
proof -
  let ?url = "request_url version platform_triplet archive_ext"
  let ?filename = "archive_filename platform_triplet version archive_ext"
  let ?tp = "temp_path ev ?filename"
  let ?tk = "temp_key ev w"
  let ?P = "''Platform: '' @ platform_triplet"
  let ?U = "''Download URL: '' @ ?url"
  let ?X = "''Extracting '' @ path_str ?tp @ '' to '' @ path_str output_dir @ ''...''"
  have w3: "w3 = w\<lparr>fs := made_dirs (fs w) (resolve w output_dir)\<rparr>"
    using assms(3) by (rule mkdir_parents_made)
  let ?w3 = "print (print w3 ?P) ?U"
  have mk: "mkdir_parents (print (print w ?P) ?U) output_dir = Inr ?w3"
    using assms(3) by (simp add: mkdir_parents_print)
  have tk3: "resolve w3 (parse_path (tempdir ev)) = ?tk"
    by (simp add: temp_key_def w3)
  let ?w4 = "?w3\<lparr>fs := f4\<rparr>"
  have r3: "\<And>p. resolve w3 p = resolve w p" by (simp add: w3)
  have "download_file ev ?w4 ?url ?tp =
     (Inr (), ?w4\<lparr>fs := f5, stdout := stdout ?w4 @ [''Downloading '' @ ?url @ ''...'',
                                                     ''Downloaded to '' @ path_str ?tp],
                   requests := requests ?w4 @ [?url]\<rparr>)"
    using assms(5) by (rule download_file_ok) (simp add: r3 assms(6))
  then obtain w5 where dl: "download_file ev ?w4 ?url ?tp = (Inr (), w5)"
    and w5: "w5 = ?w4\<lparr>fs := f5, stdout := stdout ?w4 @ [''Downloading '' @ ?url @ ''...'',
                                                     ''Downloaded to '' @ path_str ?tp],
                   requests := requests ?w4 @ [?url]\<rparr>"
    by simp
  have rd: "read_file (fs w5) (resolve w5 ?tp) (path_str ?tp) = Inr data"
    using read_after_write[OF assms(6)] by (simp add: w5 r3)
  let ?w6 = "print (print w5 ''Verifying SHA256 hash...'') ''Hash verification passed''"
  have vh: "verify_hash w5 ?tp expected_hash = (Inr (), ?w6)"
    using verify_hash_match[OF rd] assms(7) by simp
  have xa: "extract_archive ev ?w6 ?tp output_dir =
     (Inl (RuntimeError (unsupported_message ?tp)), print ?w6 ?X)"
    using extract_archive_unsupported[OF assms(8,9)] by (simp add: unsupported_message_def)
  have body: "fetch_body ev ?url ?filename expected_hash output_dir (tempdir ev) ?w4 =
     (Inl (RuntimeError (unsupported_message ?tp)), print ?w6 ?X)"
    using dl vh xa by (simp add: fetch_body_def Let_def temp_path_def)
  have f4: "f4 = (fs w3)(?tk \<mapsto> Dir)" using os_mkdir_Inr[OF assms(4)] by simp
  have f5: "f5 = f4(resolve w ?tp \<mapsto> File data)" using write_file_Inr[OF assms(6)] by simp
  have pre: "prefix ?tk (resolve w ?tp)"
    using temp_path_prefix[of w "tempdir ev"] by (simp add: temp_key_def temp_path_def)
  have "rmtree f5 ?tk = rmtree f4 ?tk" unfolding f5 using pre by (rule rmtree_upd)
  also have "\<dots> = rmtree (fs w3) ?tk" unfolding f4 by (rule rmtree_upd) simp
  finally have rm: "rmtree f5 ?tk = rmtree (fs w3) ?tk" .
  have tmp: "with_temporary_directory ev ?w3
               (fetch_body ev ?url ?filename expected_hash output_dir) =
     (Inl (RuntimeError (unsupported_message ?tp)),
      (print ?w6 ?X)\<lparr>fs := rmtree (fs w3) ?tk\<rparr>)"
  proof -
    have fs6: "fs (print ?w6 ?X) = f5" by (simp add: w5)
    have "with_temporary_directory ev ?w3
               (fetch_body ev ?url ?filename expected_hash output_dir) =
          (case fetch_body ev ?url ?filename expected_hash output_dir (tempdir ev) ?w4 of
             (r, w') \<Rightarrow> (r, w'\<lparr>fs := rmtree (fs w') ?tk\<rparr>))"
      using assms(4) by (simp add: with_temporary_directory_def Let_def tk3)
    also have "\<dots> =
       (Inl (RuntimeError (unsupported_message ?tp)), (print ?w6 ?X)\<lparr>fs := rmtree f5 ?tk\<rparr>)"
      unfolding body by (simp only: prod.case fs6)
    finally show ?thesis by (simp only: rm)
  qed
  have "download_aic_sdk ev w version output_dir platform_triplet versions_file =
     (Inl (RuntimeError (unsupported_message ?tp)),
      (print ?w6 ?X)\<lparr>fs := rmtree (fs w3) ?tk\<rparr>)"
    by (simp only: download_aic_sdk_found[OF assms(1,2)] mk sum.case tmp prod.case)
  moreover have "(print ?w6 ?X)\<lparr>fs := rmtree (fs w3) ?tk\<rparr> =
      w\<lparr>fs := rmtree (fs w3) ?tk,
        stdout := stdout w @ [?P, ?U, ''Downloading '' @ ?url @ ''...'',
                              ''Downloaded to '' @ path_str ?tp, ''Verifying SHA256 hash...'',
                              ''Hash verification passed'', ?X],
        requests := requests w @ [?url]\<rparr>"
    by (simp add: w5 print_def) (simp add: w3)
  ultimately show ?thesis by simp
qed

text \<open>
  Claim C6. When the table loads and the requested version is absent from it, or the
  platform is absent under that version, \<open>download_aic_sdk\<close> raises an error and has done
  nothing but print the platform line: no request was sent and the file system is
  untouched. The absent-version message and the absent-platform message always differ.
\<close>

theorem unlisted_pair_not_found:
  assumes "load_platform_config w versions_file = Inr config"
    and "config version = None \<or> (\<exists>pl. config version = Some pl \<and> pl platform_triplet = None)"
  shows "download_aic_sdk ev w version output_dir platform_triplet versions_file =
     (Inl (RuntimeError
        (if config version = None
         then ''Version '' @ version @ '' not found in '' @ path_str versions_file
         else ''Platform '' @ platform_triplet @ '' not supported for version '' @ version)),
      print w (''Platform: '' @ platform_triplet)) \<and>
     requests (snd (download_aic_sdk ev w version output_dir platform_triplet versions_file)) =
       requests w \<and>
     fs (snd (download_aic_sdk ev w version output_dir platform_triplet versions_file)) = fs w \<and>
     ''Version '' @ v1 @ '' not found in '' @ f1 \<noteq>
       ''Platform '' @ p2 @ '' not supported for version '' @ v2"
proof -
  have "table_lookup config (version, platform_triplet) = None"
    using assms(2) by (simp add: table_lookup_None)
  from download_aic_sdk_not_found[OF assms(1) this] show ?thesis by simp
qed

text \<open>
  Claim C7. When the name of the archive file ends neither in \<open>.zip\<close> nor in \<open>.tar.gz\<close>,
  \<open>extract_archive\<close> raises \<open>Unsupported archive format\<close> and has done nothing but print
  the line announcing the extraction; so an extraction that succeeds was of a file whose
  name ends in one of the two.
\<close>

theorem extract_archive_by_suffix:
  "(\<not> endswith (path_name archive_path) ''.zip'' \<and>
    \<not> endswith (path_name archive_path) ''.tar.gz'' \<longrightarrow>
      extract_archive ev w archive_path extract_to =
        (Inl (RuntimeError (''Unsupported archive format: '' @ path_str archive_path)),
         print w (''Extracting '' @ path_str archive_path @ '' to '' @
                  path_str extract_to @ ''...''))) \<and>
   (fst (extract_archive ev w archive_path extract_to) = Inr () \<longrightarrow>
      endswith (path_name archive_path) ''.zip'' \<or>
      endswith (path_name archive_path) ''.tar.gz'')"
proof (intro conjI impI)
  assume "\<not> endswith (path_name archive_path) ''.zip'' \<and>
          \<not> endswith (path_name archive_path) ''.tar.gz''"
  then show "extract_archive ev w archive_path extract_to =
        (Inl (RuntimeError (''Unsupported archive format: '' @ path_str archive_path)),
         print w (''Extracting '' @ path_str archive_path @ '' to '' @
                  path_str extract_to @ ''...''))"
    by (simp add: extract_archive_unsupported)
next
  assume ok: "fst (extract_archive ev w archive_path extract_to) = Inr ()"
  show "endswith (path_name archive_path) ''.zip'' \<or>
        endswith (path_name archive_path) ''.tar.gz''"
  proof (rule ccontr)
    assume "\<not> (endswith (path_name archive_path) ''.zip'' \<or>
                endswith (path_name archive_path) ''.tar.gz'')"
    then have "fst (extract_archive ev w archive_path extract_to) =
                 Inl (RuntimeError (''Unsupported archive format: '' @ path_str archive_path))"
      by (simp add: extract_archive_unsupported)
    then show False using ok by simp
  qed
qed

section \<open>The example run\<close>

text \<open>
  In the example world the table's last row for \<open>1.0.0\<close> on \<open>x86_64-pc-windows-msvc\<close>
  expects the hash \<open>11\<close>; the download delivers \<open>hello\<close>. The facts below evaluate the
  steps of that run.
\<close>

lemma example_temp_key: "temp_key example_env example_world = [''tmp'', ''tmpk3x9'']"
  by code_simp

lemma example_out_key: "resolve example_world sdk_dir = [''work'', ''out'', ''sdk'']"
  by code_simp

lemma example_fresh: "\<forall>q. prefix (temp_key example_env example_world) q \<longrightarrow> fs example_world q = None"
  unfolding example_temp_key by (auto simp: example_world_def example_fs_def)

lemma example_not_above:
  "\<not> prefix (temp_key example_env example_world) (resolve example_world sdk_dir)"
  by code_simp

lemma example_loads:
  "load_platform_config example_world versions_txt =
     Inr (projr (load_platform_config example_world versions_txt))"
proof -
  have "\<not> isl (load_platform_config example_world versions_txt)" by code_simp
  then show ?thesis by simp
qed

lemma example_mkdir:
  "mkdir_parents example_world sdk_dir = Inr (projr (mkdir_parents example_world sdk_dir))"
proof -
  have "\<not> isl (mkdir_parents example_world sdk_dir)" by code_simp
  then show ?thesis by simp
qed

lemma example_mkdtemp:
  "os_mkdir (fs (projr (mkdir_parents example_world sdk_dir)))
     (temp_key example_env example_world) (tempdir example_env) =
   Inr (projr (os_mkdir (fs (projr (mkdir_parents example_world sdk_dir)))
     (temp_key example_env example_world) (tempdir example_env)))"
proof -
  have "\<not> isl (os_mkdir (fs (projr (mkdir_parents example_world sdk_dir)))
     (temp_key example_env example_world) (tempdir example_env))" by code_simp
  then show ?thesis by simp
qed

lemma example_urlopen: "urlopen example_env url = Inr (''hello'', None)"
  by (simp add: example_env_def)

lemma example_write:
  "write_file (projr (os_mkdir (fs (projr (mkdir_parents example_world sdk_dir)))
                 (temp_key example_env example_world) (tempdir example_env)))
     (resolve example_world (temp_path example_env (archive_filename p ''1.0.0'' ''zip'')))
     (path_str (temp_path example_env (archive_filename p ''1.0.0'' ''zip''))) ''hello'' =
   Inr (projr (write_file (projr (os_mkdir (fs (projr (mkdir_parents example_world sdk_dir)))
                 (temp_key example_env example_world) (tempdir example_env)))
     (resolve example_world (temp_path example_env (archive_filename p ''1.0.0'' ''zip'')))
     (path_str (temp_path example_env (archive_filename p ''1.0.0'' ''zip''))) ''hello''))"
  if "p = ''x86_64-pc-windows-msvc''"
proof -
  have "\<not> isl (write_file (projr (os_mkdir (fs (projr (mkdir_parents example_world sdk_dir)))
                 (temp_key example_env example_world) (tempdir example_env)))
     (resolve example_world (temp_path example_env
        (archive_filename ''x86_64-pc-windows-msvc'' ''1.0.0'' ''zip'')))
     (path_str (temp_path example_env
        (archive_filename ''x86_64-pc-windows-msvc'' ''1.0.0'' ''zip''))) ''hello'')"
    by code_simp
  then show ?thesis using that by simp
qed

lemma example_lookup:
  "table_lookup (projr (load_platform_config example_world versions_txt))
     (''1.0.0'', ''x86_64-pc-windows-msvc'') = Some (''zip'', ''11'')"
  by code_simp

lemma example_hash_differs: "hex_of_state (sha256 ''hello'') \<noteq> ''11''"
  by (simp add: sha256_hello sha256_of_hello_def)

lemma example_mismatch_run:
  "download_aic_sdk example_env example_world ''1.0.0'' sdk_dir ''x86_64-pc-windows-msvc''
     versions_txt =
   (Inl (RuntimeError (hash_mismatch_message ''11'' sha256_of_hello)),
    example_world
      \<lparr>fs := rmtree (fs (projr (mkdir_parents example_world sdk_dir)))
                (temp_key example_env example_world),
       stdout := stdout example_world @
         [''Platform: x86_64-pc-windows-msvc'',
          ''Download URL: https://github.com/ai-coustics/aic-sdk-c/releases/download/1.0.0/aic-sdk-x86_64-pc-windows-msvc-1.0.0.zip'',
          ''Downloading https://github.com/ai-coustics/aic-sdk-c/releases/download/1.0.0/aic-sdk-x86_64-pc-windows-msvc-1.0.0.zip...'',
          ''Downloaded to /tmp/tmpk3x9/aic-sdk-x86_64-pc-windows-msvc-1.0.0.zip'',
          ''Verifying SHA256 hash...''],
       requests := requests example_world @
         [''https://github.com/ai-coustics/aic-sdk-c/releases/download/1.0.0/aic-sdk-x86_64-pc-windows-msvc-1.0.0.zip'']\<rparr>)"
proof -
  have u: "request_url ''1.0.0'' ''x86_64-pc-windows-msvc'' ''zip'' =
    ''https://github.com/ai-coustics/aic-sdk-c/releases/download/1.0.0/aic-sdk-x86_64-pc-windows-msvc-1.0.0.zip''"
    by code_simp
  have t: "path_str (temp_path example_env
             (archive_filename ''x86_64-pc-windows-msvc'' ''1.0.0'' ''zip'')) =
           ''/tmp/tmpk3x9/aic-sdk-x86_64-pc-windows-msvc-1.0.0.zip''"
    by code_simp
  show ?thesis
    using fetch_hash_mismatch[OF example_loads example_lookup example_mkdir example_mkdtemp
        example_urlopen example_write[OF refl] example_hash_differs]
    by (simp only: u t sha256_hello) simp
qed

text \<open>
  The row for \<open>1.1.0\<close> on \<open>aarch64-apple-darwin\<close> has the right hash and the extension
  \<open>gz\<close>: that run passes the verification and stops at the archive format.
\<close>

lemma example_lookup_gz:
  "table_lookup (projr (load_platform_config example_world versions_txt))
     (''1.1.0'', ''aarch64-apple-darwin'') = Some (''gz'', sha256_of_hello)"
  by code_simp

lemma example_write_gz:
  "write_file (projr (os_mkdir (fs (projr (mkdir_parents example_world sdk_dir)))
                 (temp_key example_env example_world) (tempdir example_env)))
     (resolve example_world (temp_path example_env
        (archive_filename ''aarch64-apple-darwin'' ''1.1.0'' ''gz'')))
     (path_str (temp_path example_env
        (archive_filename ''aarch64-apple-darwin'' ''1.1.0'' ''gz''))) ''hello'' =
   Inr (projr (write_file (projr (os_mkdir (fs (projr (mkdir_parents example_world sdk_dir)))
                 (temp_key example_env example_world) (tempdir example_env)))
     (resolve example_world (temp_path example_env
        (archive_filename ''aarch64-apple-darwin'' ''1.1.0'' ''gz'')))
     (path_str (temp_path example_env
        (archive_filename ''aarch64-apple-darwin'' ''1.1.0'' ''gz''))) ''hello''))"
proof -
  have "\<not> isl (write_file (projr (os_mkdir (fs (projr (mkdir_parents example_world sdk_dir)))
                 (temp_key example_env example_world) (tempdir example_env)))
     (resolve example_world (temp_path example_env
        (archive_filename ''aarch64-apple-darwin'' ''1.1.0'' ''gz'')))
     (path_str (temp_path example_env
        (archive_filename ''aarch64-apple-darwin'' ''1.1.0'' ''gz''))) ''hello'')"
    by code_simp
  then show ?thesis by simp
qed

lemma example_unsupported_run:
  "download_aic_sdk example_env example_world ''1.1.0'' sdk_dir ''aarch64-apple-darwin''
     versions_txt =
   (Inl (RuntimeError
      ''Unsupported archive format: /tmp/tmpk3x9/aic-sdk-aarch64-apple-darwin-1.1.0.gz''),
    example_world
      \<lparr>fs := rmtree (fs (projr (mkdir_parents example_world sdk_dir)))
                (temp_key example_env example_world),
       stdout := stdout example_world @
         [''Platform: aarch64-apple-darwin'',
          ''Download URL: https://github.com/ai-coustics/aic-sdk-c/releases/download/1.1.0/aic-sdk-aarch64-apple-darwin-1.1.0.gz'',
          ''Downloading https://github.com/ai-coustics/aic-sdk-c/releases/download/1.1.0/aic-sdk-aarch64-apple-darwin-1.1.0.gz...'',
          ''Downloaded to /tmp/tmpk3x9/aic-sdk-aarch64-apple-darwin-1.1.0.gz'',
          ''Verifying SHA256 hash...'',
          ''Hash verification passed'',
          ''Extracting /tmp/tmpk3x9/aic-sdk-aarch64-apple-darwin-1.1.0.gz to out/sdk...''],
       requests := requests example_world @
         [''https://github.com/ai-coustics/aic-sdk-c/releases/download/1.1.0/aic-sdk-aarch64-apple-darwin-1.1.0.gz'']\<rparr>)"
proof -
  have u: "request_url ''1.1.0'' ''aarch64-apple-darwin'' ''gz'' =
    ''https://github.com/ai-coustics/aic-sdk-c/releases/download/1.1.0/aic-sdk-aarch64-apple-darwin-1.1.0.gz''"
    by code_simp
  have t: "path_str (temp_path example_env
             (archive_filename ''aarch64-apple-darwin'' ''1.1.0'' ''gz'')) =
           ''/tmp/tmpk3x9/aic-sdk-aarch64-apple-darwin-1.1.0.gz''"
    by code_simp
  have o: "path_str sdk_dir = ''out/sdk''" by code_simp
  have z: "\<not> endswith (path_name (temp_path example_env
             (archive_filename ''aarch64-apple-darwin'' ''1.1.0'' ''gz''))) ''.zip''"
    by code_simp
  have g: "\<not> endswith (path_name (temp_path example_env
             (archive_filename ''aarch64-apple-darwin'' ''1.1.0'' ''gz''))) ''.tar.gz''"
    by code_simp
  show ?thesis
    using fetch_unsupported[OF example_loads example_lookup_gz example_mkdir example_mkdtemp
        example_urlopen example_write_gz sha256_hello z g]
    by (simp only: u t o unsupported_message_def) simp
qed

theorem hash_mismatch_raises_witness:
  "fst (download_aic_sdk example_env example_world ''1.0.0'' sdk_dir ''x86_64-pc-windows-msvc''
          versions_txt) =
     Inl (RuntimeError
       (''Hash verification failed!'' @ [LF] @
        ''Expected: 11'' @ [LF] @
        ''Actual:   2cf24dba5fb0a30e26e83b2ac5b9e29e1b161e5c1fa7425e73043362938b9824'')) \<and>
   last (stdout (snd (download_aic_sdk example_env example_world ''1.0.0'' sdk_dir
          ''x86_64-pc-windows-msvc'' versions_txt))) = ''Verifying SHA256 hash...'' \<and>
   download_aic_sdk
     (example_env\<lparr>zip_members := (\<lambda>b. Inr [([''evil''], File b)]), tar_members := (\<lambda>b. Inr [])\<rparr>)
     example_world ''1.0.0'' sdk_dir ''x86_64-pc-windows-msvc'' versions_txt =
   download_aic_sdk example_env example_world ''1.0.0'' sdk_dir ''x86_64-pc-windows-msvc''
     versions_txt"
  using hash_mismatch_raises[OF example_loads example_lookup example_mkdir example_mkdtemp
      example_urlopen example_write[OF refl] example_hash_differs]
  by (simp add: sha256_hello sha256_of_hello_def)

text \<open>
  The claim C3 as the specification words it fails: in the example the output directory
  \<open>out/sdk\<close> does not exist before the call, the call fails with the hash-verification
  error, and the directory exists afterwards.
\<close>

theorem output_dir_untouched_counterexample:
  "fs example_world [''work'', ''out'', ''sdk''] = None \<and>
   fst (download_aic_sdk example_env example_world ''1.0.0'' sdk_dir ''x86_64-pc-windows-msvc''
          versions_txt) =
     Inl (RuntimeError
       (''Hash verification failed!'' @ [LF] @
        ''Expected: 11'' @ [LF] @
        ''Actual:   2cf24dba5fb0a30e26e83b2ac5b9e29e1b161e5c1fa7425e73043362938b9824'')) \<and>
   fs (snd (download_aic_sdk example_env example_world ''1.0.0'' sdk_dir
          ''x86_64-pc-windows-msvc'' versions_txt)) [''work'', ''out'', ''sdk''] = Some Dir"
proof -
  have a: "fs example_world [''work'', ''out'', ''sdk''] = None" by code_simp
  have b: "rmtree (fs (projr (mkdir_parents example_world sdk_dir)))
             (temp_key example_env example_world) [''work'', ''out'', ''sdk''] = Some Dir"
    by code_simp
  show ?thesis using a b
    by (simp add: example_mismatch_run hash_mismatch_message_def sha256_of_hello_def)
qed

theorem failed_fetch_output_dir_witness:
  "fst (download_aic_sdk example_env example_world ''1.0.0'' sdk_dir ''x86_64-pc-windows-msvc''
          versions_txt) = Inl (RuntimeError (hash_mismatch_message ''11'' sha256_of_hello)) \<and>
   startswith (hash_mismatch_message ''11'' sha256_of_hello) ''Hash verification failed!'' \<and>
   fs (snd (download_aic_sdk example_env example_world ''1.0.0'' sdk_dir
          ''x86_64-pc-windows-msvc'' versions_txt)) =
     made_dirs (fs example_world) [''work'', ''out'', ''sdk''] \<and>
   fst (download_aic_sdk example_env example_world ''1.1.0'' sdk_dir ''aarch64-apple-darwin''
          versions_txt) =
     Inl (RuntimeError
       ''Unsupported archive format: /tmp/tmpk3x9/aic-sdk-aarch64-apple-darwin-1.1.0.gz'') \<and>
   fs (snd (download_aic_sdk example_env example_world ''1.1.0'' sdk_dir
          ''aarch64-apple-darwin'' versions_txt)) =
     made_dirs (fs example_world) [''work'', ''out'', ''sdk'']"
proof -
  have s: "startswith (hash_mismatch_message ''11'' sha256_of_hello) ''Hash verification failed!''"
    by (simp add: hash_mismatch_message_def startswith_def)
  then have h: "startswith (hash_mismatch_message ''11'' sha256_of_hello) ''Hash verification failed!'' \<or>
             startswith (hash_mismatch_message ''11'' sha256_of_hello) ''Unsupported archive format: ''"
    by simp
  have u: "startswith ''Unsupported archive format: /tmp/tmpk3x9/aic-sdk-aarch64-apple-darwin-1.1.0.gz''
               ''Hash verification failed!'' \<or>
           startswith ''Unsupported archive format: /tmp/tmpk3x9/aic-sdk-aarch64-apple-darwin-1.1.0.gz''
               ''Unsupported archive format: ''"
    by (simp add: startswith_def)
  from failed_fetch_output_dir[OF example_mismatch_run h example_fresh example_not_above]
    failed_fetch_output_dir[OF example_unsupported_run u example_fresh example_not_above]
  show ?thesis using s by (simp add: example_mismatch_run example_unsupported_run example_out_key)
qed

theorem unlisted_pair_not_found_witness:
  "download_aic_sdk example_env example_world ''9.9.9'' sdk_dir ''x86_64-unknown-linux-gnu''
     versions_txt =
     (Inl (RuntimeError ''Version 9.9.9 not found in VERSIONS.txt''),
      print example_world ''Platform: x86_64-unknown-linux-gnu'') \<and>
   download_aic_sdk example_env example_world ''1.0.0'' sdk_dir ''riscv64-unknown-linux-gnu''
     versions_txt =
     (Inl (RuntimeError ''Platform riscv64-unknown-linux-gnu not supported for version 1.0.0''),
      print example_world ''Platform: riscv64-unknown-linux-gnu'')"
proof -
  let ?config = "projr (load_platform_config example_world versions_txt)"
  have v: "?config ''9.9.9'' = None" by code_simp
  have p: "\<exists>pl. ?config ''1.0.0'' = Some pl \<and> pl ''riscv64-unknown-linux-gnu'' = None"
  proof -
    have "\<not> Option.is_none (?config ''1.0.0'') \<and>
          the (?config ''1.0.0'') ''riscv64-unknown-linux-gnu'' = None"
      by code_simp
    then show ?thesis by (auto simp: Option.is_none_def)
  qed
  have ne: "?config ''1.0.0'' \<noteq> None" using p by auto
  have n: "path_str versions_txt = ''VERSIONS.txt''" by code_simp
  have a: "?config ''9.9.9'' = None \<or> (\<exists>pl. ?config ''9.9.9'' = Some pl \<and>
             pl ''x86_64-unknown-linux-gnu'' = None)"
    using v by simp
  have b: "?config ''1.0.0'' = None \<or> (\<exists>pl. ?config ''1.0.0'' = Some pl \<and>
             pl ''riscv64-unknown-linux-gnu'' = None)"
    using p by simp
  show ?thesis
    using unlisted_pair_not_found[OF example_loads a, of example_env sdk_dir]
      unlisted_pair_not_found[OF example_loads b, of example_env sdk_dir] v ne n
    by simp
qed

theorem extract_archive_by_suffix_witness:
  "extract_archive example_env example_world (Path True [''tmp'', ''sdk.gz'']) sdk_dir =
     (Inl (RuntimeError ''Unsupported archive format: /tmp/sdk.gz''),
      print example_world ''Extracting /tmp/sdk.gz to out/sdk...'') \<and>
   fst (extract_archive example_env example_world sdk_tar_gz sdk_dir) = Inr () \<and>
   endswith (path_name sdk_tar_gz) ''.tar.gz''"
proof -
  have a: "\<not> endswith (path_name (Path True [''tmp'', ''sdk.gz''])) ''.zip'' \<and>
           \<not> endswith (path_name (Path True [''tmp'', ''sdk.gz''])) ''.tar.gz''"
    by code_simp
  have b: "fst (extract_archive example_env example_world sdk_tar_gz sdk_dir) = Inr ()"
    by code_simp
  have c: "\<not> endswith (path_name sdk_tar_gz) ''.zip''" by code_simp
  have s: "path_str (Path True [''tmp'', ''sdk.gz'']) = ''/tmp/sdk.gz''"
    "path_str sdk_dir = ''out/sdk''" by code_simp+
  show ?thesis
    using extract_archive_by_suffix[of "Path True [''tmp'', ''sdk.gz'']" example_env example_world sdk_dir]
      extract_archive_by_suffix[of sdk_tar_gz example_env example_world sdk_dir] a b c s
    by simp
qed

theorem temporary_directory_removed_witness:
  "fs (snd (download_aic_sdk example_env example_world ''1.0.0'' sdk_dir
          ''x86_64-unknown-linux-gnu'' versions_txt)) [''tmp'', ''tmpk3x9''] = None \<and>
   fs (snd (download_aic_sdk example_env example_world ''1.0.0'' sdk_dir
          ''x86_64-unknown-linux-gnu'' versions_txt))
      [''tmp'', ''tmpk3x9'', ''aic-sdk-x86_64-unknown-linux-gnu-1.0.0.tar.gz''] = None"
  using temporary_directory_removed[OF example_fresh example_not_above,
      of "''1.0.0''" "''x86_64-unknown-linux-gnu''" versions_txt]
  by (simp add: example_temp_key)

end
